theory Spec2Isabelle
  imports
    Complex_Main
    "HOL-Library.Multiset"
    "HOL-Library.Char_ord"
    "HOL-Library.List_Lexorder"
    "HOL-Library.Product_Lexorder"
begin

section \<open>The timing store of paratest (class Persistence)\<close>

text \<open>
  The store is one SQLite file with two tables.  A row of \<open>executions\<close> has the
  columns \<open>id\<close>, \<open>source\<close> and \<open>timestamp\<close>; a row of \<open>testtime\<close> has \<open>id\<close>,
  \<open>source\<close>, \<open>test\<close>, \<open>duration\<close> and \<open>execution\<close>.  Both \<open>id\<close> columns are
  \<open>integer primary key\<close>, so the engine fills them with the largest id of the table plus
  one (1 in an empty table).  The column \<open>execution\<close> may hold NULL, written \<open>None\<close>.
  Durations are Python floats, which the engine stores as IEEE binary64 values; a
  duration is modelled as the real number that the double denotes.  The aggregate
  \<open>avg\<close> is given twice: \<open>sql_avg\<close> adds and divides in exact arithmetic and is used
  where a statement is about which rows enter an average, and \<open>sql_avg_double\<close> rounds
  every sum and the quotient to a double as the engine does; the value that
  \<open>get_priority\<close> returns is studied on the latter (\<open>get_priority_double\<close>).  Ids are
  modelled as unbounded naturals (the engine's ids are 64-bit and the program only ever
  creates positive ones).

  A table is the list of its rows in insertion order, \<open>None\<close> when the table does not
  exist.  The file itself may be absent (\<open>os.path.exists(db_path)\<close> is false), which is
  the store \<open>None\<close>.
\<close>

record execution_row =
  e_id :: nat
  e_source :: string
  e_timestamp :: nat

record testtime_row =
  t_id :: nat
  t_source :: string
  t_test :: string
  t_duration :: real
  t_execution :: "nat option"

record database =
  executions :: "execution_row list option"
  testtime :: "testtime_row list option"

type_synonym store = "database option"

datatype error =
    Abort string
  | OperationalError string
  | AttributeError string

record persistence =
  create :: bool
  source :: string
  db_path :: string
  execution :: "nat option"

text \<open>\<open>Persistence.__init__\<close>: \<open>create\<close> records whether the file was absent.\<close>

definition Persistence_init :: "store \<Rightarrow> string \<Rightarrow> string \<Rightarrow> persistence" where
  "Persistence_init st path src =
     \<lparr>create = (st = None), source = src, db_path = path, execution = None\<rparr>"

text \<open>\<open>sqlite3.connect\<close> opens the file and creates an empty one when there is none.\<close>

definition connect :: "store \<Rightarrow> database" where
  "connect st =
     (case st of None \<Rightarrow> \<lparr>executions = None, testtime = None\<rparr> | Some db \<Rightarrow> db)"

text \<open>The id given to a new row of a table whose rows have the ids \<open>ids\<close>.\<close>

definition next_id :: "nat list \<Rightarrow> nat" where
  "next_id ids = (if ids = [] then 1 else Max (set ids) + 1)"

text \<open>The aggregate \<open>max\<close>: NULL over no rows.\<close>

definition sql_max :: "nat list \<Rightarrow> nat option" where
  "sql_max ids = (if ids = [] then None else Some (Max (set ids)))"

text \<open>
  The aggregate \<open>avg\<close> in exact arithmetic: one step per row adds the value to a
  running sum and counts it, and the final value is the sum divided by the count, or
  NULL when no row was seen.  This is the engine's computation without its rounding.
\<close>

fun avg_step :: "real \<times> nat \<Rightarrow> real list \<Rightarrow> real \<times> nat" where
  "avg_step acc [] = acc"
| "avg_step (sm, cnt) (d # ds) = avg_step (sm + d, cnt + 1) ds"

definition sql_avg :: "real list \<Rightarrow> real option" where
  "sql_avg ds =
     (case avg_step (0, 0) ds of (sm, cnt) \<Rightarrow>
        if cnt = 0 then None else Some (sm / real cnt))"










text \<open>
  The two \<open>create table\<close> statements of \<open>initialize\<close>.  Each fails when its table is
  already there; a statement that has run is not undone by the failure of the next.
\<close>

definition create_tables :: "database \<Rightarrow> error option \<times> database" where
  "create_tables db =
     (case executions db of
        Some _ \<Rightarrow> (Some (OperationalError ''table executions already exists''), db)
      | None \<Rightarrow>
          let db1 = db\<lparr>executions := Some []\<rparr> in
          (case testtime db1 of
             Some _ \<Rightarrow> (Some (OperationalError ''table testtime already exists''), db1)
           | None \<Rightarrow> (None, db1\<lparr>testtime := Some []\<rparr>)))"

text \<open>
  \<open>select id from executions where source=? order by id desc limit 5, 1\<close>: the ids of
  the rows of the source in descending order, five skipped, one taken.
\<close>

definition deprecated_executions :: "string \<Rightarrow> execution_row list \<Rightarrow> nat option" where
  "deprecated_executions src es =
     (let ids = rev (sort (map e_id (filter (\<lambda>r. e_source r = src) es)))
      in case drop 5 ids of [] \<Rightarrow> None | d # _ \<Rightarrow> Some d)"

text \<open>\<open>where execution <= ?\<close> is not true of a row whose \<open>execution\<close> is NULL.\<close>

definition execution_le :: "nat \<Rightarrow> testtime_row \<Rightarrow> bool" where
  "execution_le d r = (case t_execution r of None \<Rightarrow> False | Some e \<Rightarrow> e \<le> d)"

text \<open>
  The pruning step of \<open>initialize\<close>, on the rows of \<open>executions\<close> and on the table
  \<open>testtime\<close>: when the cutoff query finds an id \<open>d\<close>, \<open>delete from executions where
  id <= d\<close> and \<open>delete from testtime where execution <= d\<close>.  Neither statement looks
  at the source of a row.
\<close>

definition prune ::
  "string \<Rightarrow> execution_row list \<Rightarrow> testtime_row list option \<Rightarrow>
     error + (execution_row list \<times> testtime_row list option)" where
  "prune src es tt =
     (case deprecated_executions src es of
        None \<Rightarrow> Inr (es, tt)
      | Some d \<Rightarrow>
          (case tt of
             None \<Rightarrow> Inl (OperationalError ''no such table: testtime'')
           | Some ts \<Rightarrow>
               Inr (filter (\<lambda>r. \<not> e_id r \<le> d) es,
                    Some (filter (\<lambda>r. \<not> execution_le d r) ts))))"

text \<open>
  The transaction of \<open>initialize\<close>: the pruning step, \<open>insert into executions(source)\<close>
  and \<open>select max(id) from executions where source=?\<close>.  A failure rolls the whole
  transaction back, so a database is returned only on success.  The argument \<open>now\<close> is
  the clock reading that the engine stores as the timestamp.
\<close>

definition rotate ::
  "nat \<Rightarrow> string \<Rightarrow> database \<Rightarrow> error + (nat option \<times> database)" where
  "rotate now src db =
     (case executions db of
        None \<Rightarrow> Inl (OperationalError ''no such table: executions'')
      | Some es \<Rightarrow>
          (case prune src es (testtime db) of
             Inl e \<Rightarrow> Inl e
           | Inr (es1, tt1) \<Rightarrow>
               (let es2 = es1 @ [\<lparr>e_id = next_id (map e_id es1), e_source = src,
                                   e_timestamp = now\<rparr>]
                in Inr (sql_max (map e_id (filter (\<lambda>r. e_source r = src) es2)),
                        \<lparr>executions = Some es2, testtime = tt1\<rparr>))))"

text \<open>
  \<open>Persistence.initialize\<close>.  The result is the exception raised (if any), the object
  after the call and the store after the call.
\<close>

definition initialize ::
  "nat \<Rightarrow> persistence \<Rightarrow> store \<Rightarrow> error option \<times> persistence \<times> store" where
  "initialize now p st =
     (let db0 = connect st in
      case (if create p then create_tables db0 else (None, db0)) of
        (Some e, db1) \<Rightarrow> (Some e, p, Some db1)
      | (None, db1) \<Rightarrow>
          (let p1 = p\<lparr>create := False\<rparr> in
           case rotate now (source p1) db1 of
             Inl e \<Rightarrow> (Some e, p1, Some db1)
           | Inr (ex, db2) \<Rightarrow> (None, p1\<lparr>execution := ex\<rparr>, Some db2)))"

text \<open>
  The values of \<open>duration\<close> in the rows selected by \<open>where source=? and test=?\<close>.
\<close>

definition durations :: "string \<Rightarrow> string \<Rightarrow> testtime_row list \<Rightarrow> real list" where
  "durations src test ts =
     map t_duration (filter (\<lambda>r. t_source r = src \<and> t_test r = test) ts)"

text \<open>Python's \<open>x or 0\<close> for a float or \<open>None\<close>: 0 when \<open>x\<close> is \<open>None\<close> or zero.\<close>

definition or_0 :: "real option \<Rightarrow> real" where
  "or_0 x = (case x of None \<Rightarrow> 0 | Some a \<Rightarrow> if a = 0 then 0 else a)"

text \<open>
  \<open>Persistence.get_priority\<close>: \<open>select avg(duration) from testtime where source=? and
  test=?\<close>.  The result is the value returned or the exception raised, and the store
  after the call (the file exists afterwards in any case).
\<close>

definition get_priority :: "persistence \<Rightarrow> string \<Rightarrow> store \<Rightarrow> (error + real) \<times> store" where
  "get_priority p test st =
     (let db = connect st in
      case testtime db of
        None \<Rightarrow> (Inl (OperationalError ''no such table: testtime''), Some db)
      | Some ts \<Rightarrow>
          (Inr (or_0 (sql_avg (durations (source p) test ts))), Some db))"


text \<open>
  \<open>Persistence.add\<close>: one \<open>insert into testtime\<close> in a transaction of its own.  The
  program never switches foreign-key enforcement on, so the value of \<open>execution\<close> is
  stored as it is.
\<close>

definition add ::
  "persistence \<Rightarrow> string \<Rightarrow> real \<Rightarrow> store \<Rightarrow> error option \<times> store" where
  "add p test duration st =
     (let db = connect st in
      case testtime db of
        None \<Rightarrow> (Some (OperationalError ''no such table: testtime''), Some db)
      | Some ts \<Rightarrow>
          (None,
           Some (db\<lparr>testtime := Some (ts @
             [\<lparr>t_id = next_id (map t_id ts), t_source = source p, t_test = test,
               t_duration = duration, t_execution = execution p\<rparr>])\<rparr>)))"

text \<open>
  \<open>Persistence.show\<close>.  What it prints is a list of lines: the message for an absent
  file, a line with a source, or a line with a test and its average.  The first query is
  \<open>select distinct source from testtime\<close> (here in order of first appearance), the
  second \<open>select test, avg(duration) from testtime where source=? group by test\<close> (here
  in ascending order of the test); SQL fixes neither order.
\<close>

datatype line =
    No_database_found
  | Source_line string
  | Test_line string "real option"

definition distinct_sources :: "testtime_row list \<Rightarrow> string list" where
  "distinct_sources ts = rev (remdups (rev (map t_source ts)))"

definition tests_of :: "string \<Rightarrow> testtime_row list \<Rightarrow> string list" where
  "tests_of src ts = sort (remdups (map t_test (filter (\<lambda>r. t_source r = src) ts)))"

definition group_avg :: "string \<Rightarrow> string \<Rightarrow> testtime_row list \<Rightarrow> real option" where
  "group_avg src test ts =
     sql_avg (durations src test ts)"

definition show_store :: "store \<Rightarrow> error + line list" where
  "show_store st =
     (case st of
        None \<Rightarrow> Inr [No_database_found]
      | Some db \<Rightarrow>
          (case testtime db of
             None \<Rightarrow> Inl (OperationalError ''no such table: testtime'')
           | Some ts \<Rightarrow>
               Inr (concat (map (\<lambda>src.
                      Source_line src #
                      map (\<lambda>test. Test_line test (group_avg src test ts)) (tests_of src ts))
                    (distinct_sources ts)))))"

text \<open>
  The store side of one \<open>run\<close> action of \<open>main\<close>: a fresh \<open>Persistence\<close> object for the
  source, \<open>initialize\<close>, and then the timings that the workers add through that object
  (a failing \<open>add\<close> is caught by \<open>Worker.process\<close>, so the next one still runs).  Each
  action comes with its clock reading and its list of timings.
\<close>

fun add_all :: "persistence \<Rightarrow> (string \<times> real) list \<Rightarrow> store \<Rightarrow> store" where
  "add_all p [] st = st"
| "add_all p ((test, duration) # xs) st = add_all p xs (snd (add p test duration st))"

definition run_action ::
  "string \<Rightarrow> string \<Rightarrow> nat \<times> (string \<times> real) list \<Rightarrow> store \<Rightarrow> error option \<times> store" where
  "run_action path src a st =
     (case initialize (fst a) (Persistence_init st path src) st of
        (Some e, p, st1) \<Rightarrow> (Some e, st1)
      | (None, p, st1) \<Rightarrow> (None, add_all p (snd a) st1))"

fun run_actions ::
  "string \<Rightarrow> string \<Rightarrow> (nat \<times> (string \<times> real) list) list \<Rightarrow> store \<Rightarrow> error option \<times> store" where
  "run_actions path src [] st = (None, st)"
| "run_actions path src (a # as) st =
     (case run_action path src a st of
        (Some e, st1) \<Rightarrow> (Some e, st1)
      | (None, st1) \<Rightarrow> run_actions path src as st1)"

section \<open>The shared queue\<close>

text \<open>
  \<open>shared_queue\<close> is a \<open>queue.PriorityQueue\<close> of pairs \<open>(priority, tid)\<close>.  Python
  compares the pairs lexicographically, the priorities as numbers and the tids as
  strings; that is the order of \<open>real \<times> string\<close> here.  By the library's contract \<open>get\<close>
  hands out the least entry present, and blocks while there is none: the model returns
  \<open>None\<close> then.  The queue is the list of the entries present.
\<close>

type_synonym entry = "real \<times> string"

definition INFINITE :: real where
  "INFINITE = 2 ^ 63 - 1"

definition FINISH :: string where
  "FINISH = []"

definition put :: "entry \<Rightarrow> entry list \<Rightarrow> entry list" where
  "put e q = e # q"

definition get :: "entry list \<Rightarrow> (entry \<times> entry list) option" where
  "get q = (if q = [] then None else Some (Min (set q), remove1 (Min (set q)) q))"

definition queue_empty :: "entry list \<Rightarrow> bool" where
  "queue_empty q = (q = [])"

section \<open>Hooks, plugins and the observable trace\<close>

text \<open>
  What the program does to the outside is recorded as a trace of events.  The outside
  answers through two oracles that may depend on everything that happened before: the
  exit status of a hook script (the command template and its substitutions are handed
  to the shell), and the outcome of running one test through the plugin, which either
  raises an exception or returns, after the elapsed time that \<open>process\<close> measures.
\<close>

datatype hook =
    Setup | Setup_workspace | Setup_test | Teardown_test | Teardown_workspace | Teardown

datatype run_outcome = Returned real | Raised string

datatype event =
    Script hook string "int option"
  | Queue_put real string
  | Queue_get string real string
  | Task_done string
  | Thread_start string
  | Thread_join string
  | Plugin_run string string run_outcome
  | Log_exception string string

type_synonym shell = "event list \<Rightarrow> string \<Rightarrow> (string \<times> string) list \<Rightarrow> int"

record plugin =
  find_tests :: "string \<Rightarrow> string \<Rightarrow> string list"
  run_test :: "event list \<Rightarrow> string \<Rightarrow> string \<Rightarrow> string \<Rightarrow> string \<Rightarrow> run_outcome"

record scripts =
  s_setup :: "string option"
  s_setup_workspace :: "string option"
  s_setup_test :: "string option"
  s_teardown_test :: "string option"
  s_teardown_workspace :: "string option"
  s_teardown :: "string option"

record state =
  shared_queue :: "entry list"
  file_store :: store
  trace :: "event list"

text \<open>
  \<open>run_script\<close>: nothing is run, and \<open>None\<close> returned, for a script that is \<open>None\<close> or
  empty; otherwise the exit status of the command.
\<close>

definition run_script ::
  "shell \<Rightarrow> event list \<Rightarrow> string option \<Rightarrow> (string \<times> string) list \<Rightarrow> int option" where
  "run_script sh history script kwargs =
     (case script of
        None \<Rightarrow> None
      | Some c \<Rightarrow> if c = [] then None else Some (sh history c kwargs))"

text \<open>The truth value of what \<open>run_script\<close> returns: a status other than 0.\<close>

definition truthy :: "int option \<Rightarrow> bool" where
  "truthy r = (case r of None \<Rightarrow> False | Some rc \<Rightarrow> rc \<noteq> 0)"

section \<open>The worker\<close>

record worker =
  w_plugin :: plugin
  w_scripts :: scripts
  w_source_path :: string
  w_output_path :: string
  w_persistence :: persistence
  w_workspace_path :: string
  w_name :: string

text \<open>\<open>os.path.join\<close> of a directory and a relative name.\<close>

definition path_join :: "string \<Rightarrow> string \<Rightarrow> string" where
  "path_join a b =
     (if a = [] then b else if last a = CHR ''/'' then a @ b else a @ ''/'' @ b)"

definition Worker_init ::
  "plugin \<Rightarrow> scripts \<Rightarrow> string \<Rightarrow> string \<Rightarrow> string \<Rightarrow> persistence \<Rightarrow> string \<Rightarrow> worker" where
  "Worker_init pluginobj scr workspace src out p nm =
     \<lparr>w_plugin = pluginobj, w_scripts = scr, w_source_path = src, w_output_path = out,
      w_persistence = p, w_workspace_path = path_join workspace nm, w_name = nm\<rparr>"

text \<open>
  \<open>Worker._run_script\<close>: the hook is run with the worker's substitutions, and a status
  other than 0 raises \<open>Abort\<close>.  The event names the hook, the worker and the status.
\<close>

definition worker_run_script ::
  "shell \<Rightarrow> worker \<Rightarrow> hook \<Rightarrow> string option \<Rightarrow> string \<Rightarrow> state \<Rightarrow> error option \<times> state" where
  "worker_run_script sh w h script message s =
     (let rc = run_script sh (trace s) script
                 [(''id'', w_name w), (''workspace'', w_workspace_path w),
                  (''source'', w_source_path w), (''output'', w_output_path w)]
      in (if truthy rc then Some (Abort message) else None,
          s\<lparr>trace := trace s @ [Script h (w_name w) rc]\<rparr>))"

definition run_script_setup_workspace ::
  "shell \<Rightarrow> worker \<Rightarrow> state \<Rightarrow> error option \<times> state" where
  "run_script_setup_workspace sh w =
     worker_run_script sh w Setup_workspace (s_setup_workspace (w_scripts w))
       (''Setup workspace failed on worker '' @ w_name w @
        '' and could not initialize the environment. Worker is dead'')"

definition run_script_teardown_workspace ::
  "shell \<Rightarrow> worker \<Rightarrow> state \<Rightarrow> error option \<times> state" where
  "run_script_teardown_workspace sh w =
     worker_run_script sh w Teardown_workspace (s_teardown_workspace (w_scripts w))
       (''Teardown workspace failed on worker '' @ w_name w @ ''. Worker is dead'')"

definition run_script_setup_test ::
  "shell \<Rightarrow> worker \<Rightarrow> state \<Rightarrow> error option \<times> state" where
  "run_script_setup_test sh w =
     worker_run_script sh w Setup_test (s_setup_test (w_scripts w))
       (''setup_test failed on worker '' @ w_name w @ ''. Worker is dead'')"

definition run_script_teardown_test ::
  "shell \<Rightarrow> worker \<Rightarrow> state \<Rightarrow> error option \<times> state" where
  "run_script_teardown_test sh w =
     worker_run_script sh w Teardown_test (s_teardown_test (w_scripts w))
       (''teardown_test failed on worker '' @ w_name w @ ''. Worker is dead'')"

fun error_text :: "error \<Rightarrow> string" where
  "error_text (Abort m) = m"
| "error_text (OperationalError m) = m"
| "error_text (AttributeError m) = m"

text \<open>
  \<open>Worker.process\<close>.  The sentinel is skipped (\<open>tid is FINISH\<close>: the empty string is
  one object in the interpreter).  Otherwise the plugin runs the test; when it returns,
  the elapsed time is added to the store.  \<open>except Exception\<close> catches what the plugin
  raises and what \<open>add\<close> raises, and logs it; nothing is raised by \<open>process\<close> itself.
\<close>

definition process :: "worker \<Rightarrow> string \<Rightarrow> state \<Rightarrow> state" where
  "process w tid s =
     (if tid = FINISH then s
      else
        (case run_test (w_plugin w) (trace s) (w_name w) tid (w_workspace_path w)
                (w_output_path w) of
           Raised m \<Rightarrow>
             s\<lparr>trace := trace s @
                 [Plugin_run (w_name w) tid (Raised m), Log_exception (w_name w) m]\<rparr>
         | Returned d \<Rightarrow>
             (case add (w_persistence w) tid d (file_store s) of
                (Some e, st) \<Rightarrow>
                  s\<lparr>file_store := st,
                    trace := trace s @
                      [Plugin_run (w_name w) tid (Returned d),
                       Log_exception (w_name w) (error_text e)]\<rparr>
              | (None, st) \<Rightarrow>
                  s\<lparr>file_store := st,
                    trace := trace s @ [Plugin_run (w_name w) tid (Returned d)]\<rparr>)))"

text \<open>
  How a thread ends: its \<open>run\<close> returns, an exception kills it, or it waits in \<open>get\<close>
  on an empty queue to which nothing is added any more.
\<close>

datatype outcome = Finished | Died error | Blocked

text \<open>
  The loop of \<open>Worker.run\<close>, one iteration per unfolding: the setup-test hook, \<open>get\<close>,
  \<open>process\<close>, \<open>task_done\<close>, the teardown-test hook, and then the test \<open>while item\<close>,
  which an empty tid fails.
\<close>

function worker_loop :: "shell \<Rightarrow> worker \<Rightarrow> state \<Rightarrow> outcome \<times> state" where
  "worker_loop sh w s =
     (case run_script_setup_test sh w s of
        (Some e, s1) \<Rightarrow> (Died e, s1)
      | (None, s1) \<Rightarrow>
          (case get (shared_queue s1) of
             None \<Rightarrow> (Blocked, s1)
           | Some ((pri, item), q) \<Rightarrow>
               (let s2 = process w item
                           (s1\<lparr>shared_queue := q,
                               trace := trace s1 @ [Queue_get (w_name w) pri item]\<rparr>);
                    s3 = s2\<lparr>trace := trace s2 @ [Task_done (w_name w)]\<rparr>
                in case run_script_teardown_test sh w s3 of
                     (Some e, s4) \<Rightarrow> (Died e, s4)
                   | (None, s4) \<Rightarrow>
                       if item \<noteq> [] then worker_loop sh w s4 else (Finished, s4))))"
  by pat_completeness auto
termination
proof (relation "measure (\<lambda>(sh, w, s). length (shared_queue s))", goal_cases)
  case 1
  show ?case by simp
next
  case (2 sh w s x1 s1 x2 e q pri item s2 s3 x3 s4)
  have a: "shared_queue s1 = shared_queue s"
    using 2(1) by (auto simp: run_script_setup_test_def worker_run_script_def Let_def)
  have g: "get (shared_queue s1) = Some (e, q)"
    using 2 by simp
  have ne: "shared_queue s1 \<noteq> []" and q: "q = remove1 (Min (set (shared_queue s1))) (shared_queue s1)"
    using g by (auto simp: get_def split: if_splits)
  have m: "Min (set (shared_queue s1)) \<in> set (shared_queue s1)"
    using ne by (intro Min_in) auto
  have b: "length q < length (shared_queue s1)"
  proof -
    have "length (remove1 x xs) < length xs" if "x \<in> set xs" for x :: entry and xs
      using that by (induction xs) auto
    then show ?thesis using m q by simp
  qed
  have c: "shared_queue s2 = q"
    using 2 by (auto simp: process_def split: run_outcome.splits prod.splits option.splits)
  have d: "shared_queue s4 = shared_queue s3"
    using 2 by (auto simp: run_script_teardown_test_def worker_run_script_def Let_def)
  show ?case using a b c d 2 by simp
qed

declare worker_loop.simps [simp del]

text \<open>\<open>Worker.run\<close>: the workspace hooks around the loop.\<close>

definition Worker_run :: "shell \<Rightarrow> worker \<Rightarrow> state \<Rightarrow> outcome \<times> state" where
  "Worker_run sh w s =
     (case run_script_setup_workspace sh w s of
        (Some e, s1) \<Rightarrow> (Died e, s1)
      | (None, s1) \<Rightarrow>
          (case worker_loop sh w s1 of
             (Finished, s2) \<Rightarrow>
               (case run_script_teardown_workspace sh w s2 of
                  (Some e, s3) \<Rightarrow> (Died e, s3)
                | (None, s3) \<Rightarrow> (Finished, s3))
           | (Died e, s2) \<Rightarrow> (Died e, s2)
           | (Blocked, s2) \<Rightarrow> (Blocked, s2)))"

section \<open>The coordinator (class Paratest)\<close>

record paratest =
  workspace_num :: int
  workspace_path :: string
  scripts_of :: scripts
  source_path :: string
  output_path :: string
  test_pattern :: string
  workers :: "worker list"
  pluginmgr :: "string \<Rightarrow> plugin option"
  persistence_of :: persistence

text \<open>Python's \<open>str\<close> of a number that is not negative.\<close>

fun str :: "nat \<Rightarrow> string" where
  "str n = (if n < 10 then [''0123456789'' ! n]
            else str (n div 10) @ [''0123456789'' ! (n mod 10)])"

declare str.simps [simp del]

definition run_script_setup :: "shell \<Rightarrow> paratest \<Rightarrow> state \<Rightarrow> error option \<times> state" where
  "run_script_setup sh par s =
     (let rc = run_script sh (trace s) (s_setup (scripts_of par))
                 [(''path'', workspace_path par)]
      in (if truthy rc then Some (Abort ''The setup script failed. aborting.'') else None,
          s\<lparr>trace := trace s @ [Script Setup [] rc]\<rparr>))"

definition run_script_teardown :: "shell \<Rightarrow> paratest \<Rightarrow> state \<Rightarrow> error option \<times> state" where
  "run_script_teardown sh par s =
     (let rc = run_script sh (trace s) (s_teardown (scripts_of par))
                 [(''path'', workspace_path par)]
      in (if truthy rc
          then Some (Abort ''The teardown script failed, but nothing can be done.'')
          else None,
          s\<lparr>trace := trace s @ [Script Teardown [] rc]\<rparr>))"

text \<open>
  \<open>queue_tests\<close>: every tid that the plugin finds is put on the queue with the priority
  that \<open>get_priority\<close> returns; the count of the tids is returned.  An exception of
  \<open>get_priority\<close> ends the loop and is passed on.
\<close>

fun queue_tests_loop ::
  "persistence \<Rightarrow> string list \<Rightarrow> nat \<Rightarrow> state \<Rightarrow> (error + nat) \<times> state" where
  "queue_tests_loop p [] tids s = (Inr tids, s)"
| "queue_tests_loop p (tid # rest) tids s =
     (case get_priority p tid (file_store s) of
        (Inl e, st) \<Rightarrow> (Inl e, s\<lparr>file_store := st\<rparr>)
      | (Inr pri, st) \<Rightarrow>
          queue_tests_loop p rest (tids + 1)
            (s\<lparr>shared_queue := put (pri, tid) (shared_queue s), file_store := st,
               trace := trace s @ [Queue_put pri tid]\<rparr>))"

definition queue_tests :: "paratest \<Rightarrow> plugin \<Rightarrow> state \<Rightarrow> (error + nat) \<times> state" where
  "queue_tests par pluginobj s =
     queue_tests_loop (persistence_of par)
       (find_tests pluginobj (source_path par) (test_pattern par)) 0 s"

definition num_of_workers :: "paratest \<Rightarrow> nat \<Rightarrow> int" where
  "num_of_workers par test_number = min (workspace_num par) (int test_number)"

text \<open>\<open>create_workers\<close>: \<open>range(workers)\<close> is empty for a count that is not positive.\<close>

definition create_workers :: "paratest \<Rightarrow> plugin \<Rightarrow> int \<Rightarrow> paratest" where
  "create_workers par pluginobj n =
     par\<lparr>workers := workers par @
       map (\<lambda>i. Worker_init pluginobj (scripts_of par) (workspace_path par)
                  (source_path par) (output_path par) (persistence_of par) (str i))
           [0..<nat n]\<rparr>"

text \<open>
  \<open>start_workers\<close>, as the coordinator performs it: for each worker in turn, the
  thread is started and one sentinel is put on the queue.
\<close>

fun start_workers :: "worker list \<Rightarrow> state \<Rightarrow> state" where
  "start_workers [] s = s"
| "start_workers (t # ts) s =
     start_workers ts
       (s\<lparr>shared_queue := put (INFINITE, FINISH) (shared_queue s),
          trace := trace s @ [Thread_start (w_name t), Queue_put INFINITE FINISH]\<rparr>)"

text \<open>
  The threads run concurrently with the coordinator and with each other.  The model of
  a whole run fixes one schedule that the interpreter may choose: no thread takes a
  step before \<open>start_workers\<close> has returned, and then each thread runs to its end when
  the coordinator joins it.  An exception that kills a thread is not passed on by
  \<open>join\<close>; a thread that waits for ever makes \<open>join\<close> wait for ever, which is the
  result \<open>False\<close>.
\<close>

fun wait_workers :: "shell \<Rightarrow> worker list \<Rightarrow> state \<Rightarrow> bool \<times> state" where
  "wait_workers sh [] s = (True, s)"
| "wait_workers sh (t # ts) s =
     (case Worker_run sh t s of
        (Blocked, s1) \<Rightarrow> (False, s1)
      | (_, s1) \<Rightarrow> wait_workers sh ts (s1\<lparr>trace := trace s1 @ [Thread_join (w_name t)]\<rparr>))"

definition assert_all_messages_were_processed :: "state \<Rightarrow> error option" where
  "assert_all_messages_were_processed s =
     (if \<not> queue_empty (shared_queue s)
      then Some (Abort ''There were unprocessed tests, but all workers are dead. Aborting.'')
      else None)"

text \<open>
  \<open>Paratest.run\<close>.  A plugin name that the plugin manager does not know gives \<open>None\<close>,
  whose attribute \<open>plugin_object\<close> does not exist.
\<close>

datatype run_result = Completed | Raises error | Hangs

definition Paratest_run ::
  "shell \<Rightarrow> paratest \<Rightarrow> string \<Rightarrow> state \<Rightarrow> run_result \<times> paratest \<times> state" where
  "Paratest_run sh par plugin_name s =
     (case pluginmgr par plugin_name of
        None \<Rightarrow>
          (Raises (AttributeError ''NoneType object has no attribute plugin_object''), par, s)
      | Some pluginobj \<Rightarrow>
          (case run_script_setup sh par s of
             (Some e, s1) \<Rightarrow> (Raises e, par, s1)
           | (None, s1) \<Rightarrow>
               (case queue_tests par pluginobj s1 of
                  (Inl e, s2) \<Rightarrow> (Raises e, par, s2)
                | (Inr test_number, s2) \<Rightarrow>
                    (let par1 = create_workers par pluginobj (num_of_workers par test_number);
                         s3 = start_workers (workers par1) s2
                     in case wait_workers sh (workers par1) s3 of
                          (False, s4) \<Rightarrow> (Hangs, par1, s4)
                        | (True, s4) \<Rightarrow>
                            (case run_script_teardown sh par1 s4 of
                               (Some e, s5) \<Rightarrow> (Raises e, par1, s5)
                             | (None, s5) \<Rightarrow>
                                 (case assert_all_messages_were_processed s5 of
                                    Some e \<Rightarrow> (Raises e, par1, s5)
                                  | None \<Rightarrow> (Completed, par1, s5)))))))"



section \<open>Notions used in the statements\<close>

text \<open>The rows of the two tables of a store (none when the file or the table is absent).\<close>

definition execution_rows :: "store \<Rightarrow> execution_row list" where
  "execution_rows st =
     (case st of None \<Rightarrow> [] | Some db \<Rightarrow> (case executions db of None \<Rightarrow> [] | Some es \<Rightarrow> es))"

definition timing_rows :: "store \<Rightarrow> testtime_row list" where
  "timing_rows st =
     (case st of None \<Rightarrow> [] | Some db \<Rightarrow> (case testtime db of None \<Rightarrow> [] | Some ts \<Rightarrow> ts))"



text \<open>
  The state of the store after \<open>n\<close> run actions for one source on a file that was
  absent before the first: the ids of the executions kept are the last six (or fewer)
  of \<open>1, ..., n\<close>, and every timing row refers to one of them.
\<close>

definition kept :: "string \<Rightarrow> nat \<Rightarrow> store \<Rightarrow> bool" where
  "kept src n st =
     (if n = 0 then st = None
      else (\<exists>es ts. st = Some \<lparr>executions = Some es, testtime = Some ts\<rparr> \<and>
              map e_id es = [Suc (n - min n 6)..<Suc n] \<and>
              (\<forall>r\<in>set es. e_source r = src) \<and>
              (\<forall>r\<in>set ts. \<exists>e. t_execution r = Some e \<and> e \<in> set (map e_id es))))"

text \<open>
  The timings that the run actions after the first \<open>lo\<close> of a list have recorded, as
  (source, test, duration, execution): the action number \<open>i\<close> (counted from 1) adds its
  timings under the execution id \<open>i\<close>.
\<close>

definition recorded ::
  "string \<Rightarrow> nat \<Rightarrow> (nat \<times> (string \<times> real) list) list \<Rightarrow>
     (string \<times> string \<times> real \<times> nat option) list" where
  "recorded src lo acts =
     concat (map (\<lambda>(i, a). map (\<lambda>(test, d). (src, test, d, Some i)) (snd a))
       (filter (\<lambda>(i, a). lo < i) (zip [1..<Suc (length acts)] acts)))"

text \<open>
  The order that the spec asks of \<open>start_workers\<close>: in a trace, no thread is started
  after a sentinel has been put.
\<close>

fun is_start :: "event \<Rightarrow> bool" where
  "is_start (Thread_start nm) = True"
| "is_start e = False"

fun is_sentinel_put :: "event \<Rightarrow> bool" where
  "is_sentinel_put (Queue_put pri tid) = (pri = INFINITE \<and> tid = FINISH)"
| "is_sentinel_put e = False"

fun sentinels_after_all_starts :: "event list \<Rightarrow> bool" where
  "sentinels_after_all_starts [] = True"
| "sentinels_after_all_starts (e # tr) =
     ((if is_sentinel_put e then \<not> list_ex is_start tr else True) \<and>
      sentinels_after_all_starts tr)"

text \<open>
  What one worker does per test, read off a trace: the calls of its setup-test hook,
  its dequeues (with the tid handed out) and the calls of its teardown-test hook, in
  the order in which they happen; and the entries that the worker dequeues.
\<close>

datatype step = Setup_step | Get_step string | Teardown_step

fun step_of :: "string \<Rightarrow> event \<Rightarrow> step option" where
  "step_of nm (Script h who rc) =
     (if who = nm \<and> h = Setup_test then Some Setup_step
      else if who = nm \<and> h = Teardown_test then Some Teardown_step
      else None)"
| "step_of nm (Queue_get who pri item) = (if who = nm then Some (Get_step item) else None)"
| "step_of nm e = None"

fun steps :: "string \<Rightarrow> event list \<Rightarrow> step list" where
  "steps nm [] = []"
| "steps nm (e # tr) =
     (case step_of nm e of None \<Rightarrow> steps nm tr | Some x \<Rightarrow> x # steps nm tr)"

fun gets_of :: "string \<Rightarrow> event list \<Rightarrow> entry list" where
  "gets_of nm [] = []"
| "gets_of nm (Queue_get who pri item # tr) =
     (if who = nm then (pri, item) # gets_of nm tr else gets_of nm tr)"
| "gets_of nm (e # tr) = gets_of nm tr"

text \<open>
  The steps of a worker that dequeues the given tids with matched hooks: each dequeue
  has one call of the setup-test hook before it and one call of the teardown-test hook
  after it.
\<close>

definition rounds :: "string list \<Rightarrow> step list" where
  "rounds items = concat (map (\<lambda>item. [Setup_step, Get_step item, Teardown_step]) items)"

text \<open>The tests that the plugin was asked to run, in order.\<close>

fun plugin_runs :: "event list \<Rightarrow> string list" where
  "plugin_runs [] = []"
| "plugin_runs (Plugin_run who tid r # tr) = tid # plugin_runs tr"
| "plugin_runs (e # tr) = plugin_runs tr"

text \<open>The events that a step of the program adds to the trace.\<close>

definition new_events :: "state \<Rightarrow> state \<Rightarrow> event list" where
  "new_events s s' = drop (length (trace s)) (trace s')"

section \<open>A concrete setting for the scenarios\<close>

text \<open>
  A shell in which every script exits with status 0, a configuration without hook
  scripts, a plugin that finds a given list of tids and runs every test in one second,
  a coordinator for the source \<open>src\<close> with a given number of workers, and the state of a
  process that has just started on a given store.
\<close>

definition quiet_shell :: shell where
  "quiet_shell = (\<lambda>history command kwargs. 0)"

definition no_scripts :: scripts where
  "no_scripts =
     \<lparr>s_setup = None, s_setup_workspace = None, s_setup_test = None,
      s_teardown_test = None, s_teardown_workspace = None, s_teardown = None\<rparr>"

definition scenario_plugin :: "string list \<Rightarrow> plugin" where
  "scenario_plugin tids =
     \<lparr>find_tests = (\<lambda>src pattern. tids),
      run_test = (\<lambda>history ident tid workspace out. Returned 1)\<rparr>"

definition scenario_paratest :: "int \<Rightarrow> scripts \<Rightarrow> string list \<Rightarrow> paratest" where
  "scenario_paratest n scr tids =
     \<lparr>workspace_num = n, workspace_path = ''/tmp/w'', scripts_of = scr,
      source_path = ''src'', output_path = ''/tmp/o'', test_pattern = [],
      workers = [],
      pluginmgr = (\<lambda>nm. if nm = ''plug'' then Some (scenario_plugin tids) else None),
      persistence_of =
        \<lparr>create = False, source = ''src'', db_path = ''db'', execution = Some 1\<rparr>\<rparr>"

definition started :: "store \<Rightarrow> state" where
  "started st = \<lparr>shared_queue = [], file_store = st, trace = []\<rparr>"

text \<open>
  A plugin whose listed tests raise an exception, the worker \<open>0\<close> of the setting, and
  the state of a process whose queue holds given entries.
\<close>

definition failing_plugin :: "string list \<Rightarrow> string list \<Rightarrow> plugin" where
  "failing_plugin tids bad =
     \<lparr>find_tests = (\<lambda>src pattern. tids),
      run_test = (\<lambda>history ident tid workspace out.
                    if tid \<in> set bad then Raised ''failed'' else Returned 1)\<rparr>"

definition scenario_worker :: "plugin \<Rightarrow> scripts \<Rightarrow> worker" where
  "scenario_worker pluginobj scr =
     Worker_init pluginobj scr ''/tmp/w'' ''src'' ''/tmp/o''
       \<lparr>create = False, source = ''src'', db_path = ''db'', execution = Some 1\<rparr> ''0''"

definition queued :: "entry list \<Rightarrow> store \<Rightarrow> state" where
  "queued q st = \<lparr>shared_queue = q, file_store = st, trace = []\<rparr>"

text \<open>A store after one earlier run in which the test \<open>t1\<close> took five seconds.\<close>

definition scenario_store :: store where
  "scenario_store =
     Some \<lparr>executions = Some [\<lparr>e_id = 1, e_source = ''src'', e_timestamp = 0\<rparr>],
           testtime = Some [\<lparr>t_id = 1, t_source = ''src'', t_test = ''t1'',
                              t_duration = 5, t_execution = Some 1\<rparr>]\<rparr>"








section \<open>The average that \<open>get_priority\<close> returns\<close>






text \<open>What a list of additions does to a store whose timing table exists.\<close>

lemma add_all_rows:
  "testtime db = Some ts \<Longrightarrow>
   \<exists>us. add_all q xs (Some db) = Some (db\<lparr>testtime := Some (ts @ us)\<rparr>) \<and>
        map (\<lambda>r. (t_source r, t_test r, t_duration r, t_execution r)) us =
        map (\<lambda>(test, d). (source q, test, d, execution q)) xs"
proof (induction xs arbitrary: db ts)
  case Nil
  then show ?case by simp
next
  case (Cons x xs)
  obtain test d where x: "x = (test, d)" by (cases x)
  let ?r = "\<lparr>t_id = next_id (map t_id ts), t_source = source q, t_test = test,
             t_duration = d, t_execution = execution q\<rparr>"
  let ?db = "db\<lparr>testtime := Some (ts @ [?r])\<rparr>"
  have step: "add q test d (Some db) = (None, Some ?db)"
    using Cons.prems by (simp add: add_def connect_def)
  have "testtime ?db = Some (ts @ [?r])" by simp
  from Cons.IH[OF this] obtain us where
    us: "add_all q xs (Some ?db) = Some (?db\<lparr>testtime := Some ((ts @ [?r]) @ us)\<rparr>)"
        "map (\<lambda>r. (t_source r, t_test r, t_duration r, t_execution r)) us =
         map (\<lambda>(test, d). (source q, test, d, execution q)) xs"
    by blast
  show ?case
    using us step x by (intro exI[of _ "?r # us"]) simp
qed

























section \<open>Rows that \<open>initialize\<close> keeps and rows that it deletes\<close>

lemma timing_rows_Some:
  "timing_rows (Some db) = (case testtime db of None \<Rightarrow> [] | Some ts \<Rightarrow> ts)"
  by (simp add: timing_rows_def)

lemma execution_rows_Some:
  "execution_rows (Some db) = (case executions db of None \<Rightarrow> [] | Some es \<Rightarrow> es)"
  by (simp add: execution_rows_def)








lemma next_id_greater: "x \<in> set ids \<Longrightarrow> x < next_id ids"
proof -
  assume x: "x \<in> set ids"
  then have "x \<le> Max (set ids)" by simp
  with x show ?thesis by (auto simp: next_id_def less_Suc_eq_le)
qed

text \<open>The id that the cutoff query finds lies below another id of the same source.\<close>

lemma deprecated_executions_below:
  assumes "deprecated_executions src es = Some d" and "distinct (map e_id es)"
  shows "\<exists>r\<in>set es. e_source r = src \<and> d < e_id r"
proof -
  define xs where "xs = map e_id (filter (\<lambda>r. e_source r = src) es)"
  define ids where "ids = rev (sort xs)"
  from assms(1) obtain rest where dr: "drop 5 ids = d # rest"
    by (auto simp: deprecated_executions_def ids_def xs_def Let_def split: list.splits)
  then have len: "5 < length ids"
    by (metis drop_eq_Nil list.distinct(1) not_le)
  have d: "ids ! 5 = d"
    using dr len by (metis Cons_nth_drop_Suc list.inject)
  have dist: "distinct ids"
    using assms(2) by (simp add: ids_def xs_def distinct_map_filter)
  have "sorted_wrt (\<lambda>x y. x \<ge> y) ids"
    by (simp add: ids_def sorted_wrt_rev)
  then have "ids ! 0 \<ge> ids ! 5"
    using len sorted_wrt_nth_less[of "\<lambda>x y. x \<ge> y" ids 0 5] by simp
  moreover have "ids ! 0 \<noteq> ids ! 5"
  proof -
    have "0 < length ids" using len by linarith
    from nth_eq_iff_index_eq[OF dist this len] show ?thesis by simp
  qed
  ultimately have "d < ids ! 0" using d by simp
  moreover have "ids ! 0 \<in> set xs"
    using len by (metis ids_def length_greater_0_conv list.size(3) not_less_zero nth_mem set_rev set_sort)
  ultimately show ?thesis by (auto simp: xs_def)
qed

text \<open>\<open>initialize\<close> on a store that has both tables, by an object whose \<open>create\<close> is off.\<close>

lemma initialize_no_cutoff:
  assumes "st = Some db" and "executions db = Some es" and "\<not> create p"
    and "deprecated_executions (source p) es = None"
  shows "initialize now p st =
           (None,
            p\<lparr>create := False,
              execution := sql_max (map e_id (filter (\<lambda>r. e_source r = source p)
                (es @ [\<lparr>e_id = next_id (map e_id es), e_source = source p,
                         e_timestamp = now\<rparr>])))\<rparr>,
            Some \<lparr>executions = Some (es @ [\<lparr>e_id = next_id (map e_id es),
                     e_source = source p, e_timestamp = now\<rparr>]),
                  testtime = testtime db\<rparr>)"
  using assms by (simp add: initialize_def connect_def rotate_def prune_def Let_def)

lemma initialize_cutoff:
  assumes "st = Some db" and "executions db = Some es" and "testtime db = Some ts"
    and "\<not> create p" and "deprecated_executions (source p) es = Some d"
  shows "initialize now p st =
           (None,
            p\<lparr>create := False,
              execution := sql_max (map e_id (filter (\<lambda>r. e_source r = source p)
                (filter (\<lambda>r. \<not> e_id r \<le> d) es @
                 [\<lparr>e_id = next_id (map e_id (filter (\<lambda>r. \<not> e_id r \<le> d) es)),
                   e_source = source p, e_timestamp = now\<rparr>])))\<rparr>,
            Some \<lparr>executions = Some (filter (\<lambda>r. \<not> e_id r \<le> d) es @
                     [\<lparr>e_id = next_id (map e_id (filter (\<lambda>r. \<not> e_id r \<le> d) es)),
                       e_source = source p, e_timestamp = now\<rparr>]),
                  testtime = Some (filter (\<lambda>r. \<not> execution_le d r) ts)\<rparr>)"
  using assms by (simp add: initialize_def connect_def rotate_def prune_def Let_def)

text \<open>
  Claim C8.  When the cutoff query of \<open>initialize\<close> for one source finds an id, the two
  deletes remove every execution row whose id is at most the cutoff and every timing row
  whose execution is at most the cutoff, whatever the source of the row; so a row of
  another source can be deleted, and there is a store in which one is.
\<close>

theorem initialize_prunes_any_source:
  assumes "st = Some db" and "executions db = Some es" and "testtime db = Some ts"
    and "\<not> create p" and "distinct (map e_id es)"
    and "deprecated_executions (source p) es = Some d"
  shows "fst (initialize now p st) = None \<and>
         (\<forall>r\<in>set es. e_id r \<le> d \<longrightarrow>
            r \<notin> set (execution_rows (snd (snd (initialize now p st))))) \<and>
         (\<forall>r\<in>set ts. execution_le d r \<longrightarrow>
            r \<notin> set (timing_rows (snd (snd (initialize now p st))))) \<and>
         (\<exists>st' p' now' r'.
            r' \<in> set (execution_rows st') \<and> e_source r' \<noteq> source p' \<and>
            r' \<notin> set (execution_rows (snd (snd (initialize now' p' st')))))"
proof (intro conjI ballI impI)
  note init = initialize_cutoff[OF assms(1,2,3,4,6), of now]
  show "fst (initialize now p st) = None"
    by (simp add: init)
  show "r \<notin> set (timing_rows (snd (snd (initialize now p st))))"
    if "r \<in> set ts" "execution_le d r" for r
    using that by (simp add: init timing_rows_Some)
  show "r \<notin> set (execution_rows (snd (snd (initialize now p st))))"
    if r: "r \<in> set es" "e_id r \<le> d" for r
  proof -
    obtain r0 where r0: "r0 \<in> set es" "d < e_id r0"
      using deprecated_executions_below[OF assms(6,5)] by blast
    then have "e_id r0 \<in> set (map e_id (filter (\<lambda>r. \<not> e_id r \<le> d) es))"
      by auto
    from next_id_greater[OF this] r0(2) r(2)
    have "e_id r < next_id (map e_id (filter (\<lambda>r. \<not> e_id r \<le> d) es))"
      by simp
    then show ?thesis
      using r by (auto simp: init execution_rows_Some)
  qed
  let ?row = "\<lambda>(i :: nat) s. \<lparr>e_id = i, e_source = s, e_timestamp = 0\<rparr>"
  let ?es = "[?row 1 ''B'', ?row 2 ''A'', ?row 3 ''A'', ?row 4 ''A'', ?row 5 ''A'', ?row 6 ''A'',
              ?row 7 ''A'']"
  let ?st = "Some \<lparr>executions = Some ?es, testtime = Some []\<rparr>"
  let ?p = "\<lparr>create = False, source = ''A'', db_path = ''db'', execution = None\<rparr>"
  have dep: "deprecated_executions ''A'' ?es = Some 2"
    by (simp add: deprecated_executions_def)
  have "?row 1 ''B'' \<in> set (execution_rows ?st) \<and> e_source (?row 1 ''B'') \<noteq> source ?p \<and>
        ?row 1 ''B'' \<notin> set (execution_rows (snd (snd (initialize 0 ?p ?st))))"
    by code_simp
  then show "\<exists>st' p' now' r'.
            r' \<in> set (execution_rows st') \<and> e_source r' \<noteq> source p' \<and>
            r' \<notin> set (execution_rows (snd (snd (initialize now' p' st'))))"
    by blast
qed

theorem initialize_prunes_any_source_witness:
  "fst (initialize 0 \<lparr>create = False, source = ''A'', db_path = ''db'', execution = None\<rparr>
      (Some \<lparr>executions = Some
               [\<lparr>e_id = 1, e_source = ''B'', e_timestamp = 0\<rparr>,
                \<lparr>e_id = 2, e_source = ''A'', e_timestamp = 0\<rparr>,
                \<lparr>e_id = 3, e_source = ''A'', e_timestamp = 0\<rparr>,
                \<lparr>e_id = 4, e_source = ''A'', e_timestamp = 0\<rparr>,
                \<lparr>e_id = 5, e_source = ''A'', e_timestamp = 0\<rparr>,
                \<lparr>e_id = 6, e_source = ''A'', e_timestamp = 0\<rparr>,
                \<lparr>e_id = 7, e_source = ''A'', e_timestamp = 0\<rparr>],
             testtime = Some
               [\<lparr>t_id = 1, t_source = ''B'', t_test = ''b'', t_duration = 1,
                 t_execution = Some 1\<rparr>]\<rparr>)) = None \<and>
   \<lparr>e_id = 1, e_source = ''B'', e_timestamp = 0\<rparr> \<notin> set (execution_rows (snd (snd
     (initialize 0 \<lparr>create = False, source = ''A'', db_path = ''db'', execution = None\<rparr>
      (Some \<lparr>executions = Some
               [\<lparr>e_id = 1, e_source = ''B'', e_timestamp = 0\<rparr>,
                \<lparr>e_id = 2, e_source = ''A'', e_timestamp = 0\<rparr>,
                \<lparr>e_id = 3, e_source = ''A'', e_timestamp = 0\<rparr>,
                \<lparr>e_id = 4, e_source = ''A'', e_timestamp = 0\<rparr>,
                \<lparr>e_id = 5, e_source = ''A'', e_timestamp = 0\<rparr>,
                \<lparr>e_id = 6, e_source = ''A'', e_timestamp = 0\<rparr>,
                \<lparr>e_id = 7, e_source = ''A'', e_timestamp = 0\<rparr>],
             testtime = Some
               [\<lparr>t_id = 1, t_source = ''B'', t_test = ''b'', t_duration = 1,
                 t_execution = Some 1\<rparr>]\<rparr>))))) \<and>
   \<lparr>t_id = 1, t_source = ''B'', t_test = ''b'', t_duration = 1, t_execution = Some 1\<rparr>
     \<notin> set (timing_rows (snd (snd
     (initialize 0 \<lparr>create = False, source = ''A'', db_path = ''db'', execution = None\<rparr>
      (Some \<lparr>executions = Some
               [\<lparr>e_id = 1, e_source = ''B'', e_timestamp = 0\<rparr>,
                \<lparr>e_id = 2, e_source = ''A'', e_timestamp = 0\<rparr>,
                \<lparr>e_id = 3, e_source = ''A'', e_timestamp = 0\<rparr>,
                \<lparr>e_id = 4, e_source = ''A'', e_timestamp = 0\<rparr>,
                \<lparr>e_id = 5, e_source = ''A'', e_timestamp = 0\<rparr>,
                \<lparr>e_id = 6, e_source = ''A'', e_timestamp = 0\<rparr>,
                \<lparr>e_id = 7, e_source = ''A'', e_timestamp = 0\<rparr>],
             testtime = Some
               [\<lparr>t_id = 1, t_source = ''B'', t_test = ''b'', t_duration = 1,
                 t_execution = Some 1\<rparr>]\<rparr>)))))"
proof -
  let ?es = "[\<lparr>e_id = 1, e_source = ''B'', e_timestamp = 0\<rparr>,
                \<lparr>e_id = 2, e_source = ''A'', e_timestamp = 0\<rparr>,
                \<lparr>e_id = 3, e_source = ''A'', e_timestamp = 0\<rparr>,
                \<lparr>e_id = 4, e_source = ''A'', e_timestamp = 0\<rparr>,
                \<lparr>e_id = 5, e_source = ''A'', e_timestamp = 0\<rparr>,
                \<lparr>e_id = 6, e_source = ''A'', e_timestamp = 0\<rparr>,
                \<lparr>e_id = 7, e_source = ''A'', e_timestamp = (0 :: nat)\<rparr>]"
  let ?ts = "[\<lparr>t_id = 1, t_source = ''B'', t_test = ''b'', t_duration = 1,
                 t_execution = Some 1\<rparr>]"
  let ?db = "\<lparr>executions = Some ?es, testtime = Some ?ts\<rparr>"
  let ?p = "\<lparr>create = False, source = ''A'', db_path = ''db'', execution = None\<rparr>"
  have e: "executions ?db = Some ?es" and t: "testtime ?db = Some ?ts" by simp_all
  have c: "\<not> create ?p" by simp
  have d: "distinct (map e_id ?es)" by simp
  have dep: "deprecated_executions (source ?p) ?es = Some 2"
    by (simp add: deprecated_executions_def)
  note inst = initialize_prunes_any_source[OF refl e t c d dep, of 0]
  from inst have 1: "fst (initialize 0 ?p (Some ?db)) = None" by blast
  from inst have "\<forall>r\<in>set ?es. e_id r \<le> 2 \<longrightarrow>
            r \<notin> set (execution_rows (snd (snd (initialize 0 ?p (Some ?db)))))"
    by blast
  then have 2: "\<lparr>e_id = 1, e_source = ''B'', e_timestamp = 0\<rparr>
      \<notin> set (execution_rows (snd (snd (initialize 0 ?p (Some ?db)))))"
    by simp
  from inst have "\<forall>r\<in>set ?ts. execution_le 2 r \<longrightarrow>
            r \<notin> set (timing_rows (snd (snd (initialize 0 ?p (Some ?db)))))"
    by blast
  then have 3: "\<lparr>t_id = 1, t_source = ''B'', t_test = ''b'', t_duration = 1,
      t_execution = Some 1\<rparr> \<notin> set (timing_rows (snd (snd (initialize 0 ?p (Some ?db)))))"
    by (simp add: execution_le_def)
  from 1 2 3 show ?thesis by blast
qed

section \<open>Rotation over successive run actions\<close>

lemma filter_above_upt: "filter (\<lambda>i. \<not> i \<le> a) [a..<b] = [Suc a..<b]"
  by (induction b) auto

lemma next_id_upt: "a < b \<Longrightarrow> next_id [a..<b] = b"
proof -
  assume "a < b"
  then have "Max (set [a..<b]) = b - 1"
    by (intro Max_eqI) auto
  with \<open>a < b\<close> show ?thesis by (simp add: next_id_def)
qed

lemma sql_max_upt: "a < b \<Longrightarrow> sql_max [a..<b] = Some (b - 1)"
proof -
  assume "a < b"
  then have "Max (set [a..<b]) = b - 1"
    by (intro Max_eqI) auto
  with \<open>a < b\<close> show ?thesis by (simp add: sql_max_def)
qed

text \<open>The cutoff query on a table whose ids are consecutive, all of the source.\<close>

lemma deprecated_executions_upt:
  assumes "map e_id es = [a..<b]" and "\<forall>r\<in>set es. e_source r = src" and "b - a \<le> 6"
  shows "deprecated_executions src es = (if b - a \<le> 5 then None else Some a)"
proof -
  have f: "filter (\<lambda>r. e_source r = src) es = es"
    using assms(2) by (simp add: filter_id_conv)
  have ids: "rev (sort (map e_id (filter (\<lambda>r. e_source r = src) es))) = rev [a..<b]"
    by (simp add: f assms(1))
  show ?thesis
  proof (cases "b - a \<le> 5")
    case True
    then have "drop 5 (rev [a..<b]) = []" by simp
    with True show ?thesis
      by (simp add: deprecated_executions_def ids)
  next
    case False
    with assms(3) have six: "b - a = 6" by simp
    then have "[a..<b] = a # [Suc a..<b]" by (simp add: upt_conv_Cons)
    then have "take 1 [a..<b] = [a]" by simp
    then have "drop 5 (rev [a..<b]) = [a]"
      using six by (simp add: drop_rev)
    with False show ?thesis
      by (simp add: deprecated_executions_def ids)
  qed
qed

lemma keptI:
  assumes "n \<noteq> 0" and "map e_id es = [Suc (n - min n 6)..<Suc n]"
    and "\<forall>r\<in>set es. e_source r = src"
    and "\<forall>r\<in>set ts. \<exists>e. t_execution r = Some e \<and> e \<in> set (map e_id es)"
  shows "kept src n (Some \<lparr>executions = Some es, testtime = Some ts\<rparr>)"
  unfolding kept_def if_not_P[OF assms(1)]
  by (rule exI[of _ es], rule exI[of _ ts]) (intro conjI refl assms(2-4))

lemma initialize_kept:
  notes upt_Suc [simp del]
  assumes "kept src n st"
  shows "\<exists>p' st'. initialize now (Persistence_init st path src) st = (None, p', st') \<and>
           source p' = src \<and> execution p' = Some (Suc n) \<and> kept src (Suc n) st' \<and>
           timing_rows st' =
             (if n < 6 then timing_rows st
              else filter (\<lambda>r. \<not> execution_le (n - 5) r) (timing_rows st))"
proof (cases "n = 0")
  case True
  with assms have st: "st = None" by (simp add: kept_def)
  have "kept src (Suc 0) (Some \<lparr>executions = Some [\<lparr>e_id = Suc 0, e_source = src,
           e_timestamp = now\<rparr>], testtime = Some []\<rparr>)"
    by (rule keptI) (simp_all add: upt_Suc)
  then show ?thesis
    unfolding st True
    by (simp add: initialize_def Persistence_init_def connect_def create_tables_def rotate_def
        prune_def deprecated_executions_def next_id_def sql_max_def Let_def timing_rows_def)
next
  case False
  define lo where "lo = Suc (n - min n 6)"
  from assms False have "\<exists>es ts. st = Some \<lparr>executions = Some es, testtime = Some ts\<rparr> \<and>
              map e_id es = [Suc (n - min n 6)..<Suc n] \<and>
              (\<forall>r\<in>set es. e_source r = src) \<and>
              (\<forall>r\<in>set ts. \<exists>e. t_execution r = Some e \<and> e \<in> set (map e_id es))"
    by (simp only: kept_def if_False)
  then obtain es ts where
    st: "st = Some \<lparr>executions = Some es, testtime = Some ts\<rparr>" and
    ids: "map e_id es = [lo..<Suc n]" and
    src: "\<forall>r\<in>set es. e_source r = src" and
    refs: "\<forall>r\<in>set ts. \<exists>e. t_execution r = Some e \<and> e \<in> set (map e_id es)"
    unfolding lo_def by blast
  have lo: "lo \<le> n" "Suc n - lo \<le> 6" "n < 6 \<Longrightarrow> lo = 1" "\<not> n < 6 \<Longrightarrow> lo = n - 5"
    using False by (simp_all add: lo_def)
  let ?p = "Persistence_init st path src"
  have p: "\<not> create ?p" "source ?p = src"
    by (simp_all add: Persistence_init_def st)
  have tab: "executions \<lparr>executions = Some es, testtime = Some ts\<rparr> = Some es"
    "testtime \<lparr>executions = Some es, testtime = Some ts\<rparr> = Some ts"
    by simp_all
  have dep: "deprecated_executions src es = (if Suc n - lo \<le> 5 then None else Some lo)"
    by (rule deprecated_executions_upt[OF ids src lo(2)])
  let ?new = "\<lparr>e_id = Suc n, e_source = src, e_timestamp = now\<rparr>"
  have target: "Suc (Suc n - min (Suc n) 6) = (if n < 6 then 1 else Suc lo)"
    using lo(4) by simp
  show ?thesis
  proof (cases "n < 6")
    case True
    have d: "deprecated_executions (source ?p) es = None"
      unfolding p(2) dep using True lo(3) by simp
    have nx: "next_id (map e_id es) = Suc n"
      unfolding ids using lo(1) by (intro next_id_upt) simp
    have k1: "map e_id (es @ [?new]) = [1..<Suc (Suc n)]"
      using lo(3)[OF True] by (simp add: ids upt_Suc)
    have k2: "\<forall>r\<in>set (es @ [?new]). e_source r = src"
      using src by auto
    have k3: "\<forall>r\<in>set ts. \<exists>e. t_execution r = Some e \<and> e \<in> set (map e_id (es @ [?new]))"
      using refs by auto
    have f: "filter (\<lambda>r. e_source r = src) (es @ [?new]) = es @ [?new]"
      using k2 by (simp only: filter_id_conv)
    have m: "sql_max (map e_id (es @ [?new])) = Some (Suc n)"
      unfolding k1 using sql_max_upt[of 1 "Suc (Suc n)"] by simp
    have init: "initialize now ?p st =
        (None, ?p\<lparr>create := False, execution := Some (Suc n)\<rparr>,
         Some \<lparr>executions = Some (es @ [?new]), testtime = Some ts\<rparr>)"
      using initialize_no_cutoff[OF st tab(1) p(1) d, of now]
      unfolding p(2) nx f m by (simp only: tab)
    have k1': "map e_id (es @ [?new]) = [Suc (Suc n - min (Suc n) 6)..<Suc (Suc n)]"
      unfolding target k1 using True by simp
    have "kept src (Suc n) (Some \<lparr>executions = Some (es @ [?new]), testtime = Some ts\<rparr>)"
      by (rule keptI[OF _ k1' k2 k3]) simp
    with init p(2) True show ?thesis by (simp add: st timing_rows_def)
  next
    case False
    have d: "deprecated_executions (source ?p) es = Some lo"
      unfolding p(2) dep using False lo(4) by simp
    let ?es1 = "filter (\<lambda>r. \<not> e_id r \<le> lo) es"
    let ?ts1 = "filter (\<lambda>r. \<not> execution_le lo r) ts"
    have "map e_id ?es1 = filter (\<lambda>i. \<not> i \<le> lo) (map e_id es)"
      by (simp add: filter_map comp_def)
    also have "\<dots> = [Suc lo..<Suc n]"
      unfolding ids by (rule filter_above_upt)
    finally have ids1: "map e_id ?es1 = [Suc lo..<Suc n]" .
    have lo_lt: "Suc lo < Suc n"
      using False lo(4) by simp
    have nx1: "next_id (map e_id ?es1) = Suc n"
      unfolding ids1 using lo_lt by (rule next_id_upt)
    have "[Suc lo..<Suc (Suc n)] = [Suc lo..<Suc n] @ [Suc n]"
      using lo_lt by (simp add: upt_Suc)
    then have k1: "map e_id (?es1 @ [?new]) = [Suc lo..<Suc (Suc n)]"
      using ids1 by simp
    have k2: "\<forall>r\<in>set (?es1 @ [?new]). e_source r = src"
      using src by auto
    have k3: "\<forall>r\<in>set ?ts1. \<exists>e. t_execution r = Some e \<and> e \<in> set (map e_id (?es1 @ [?new]))"
    proof
      fix r assume r: "r \<in> set ?ts1"
      then obtain e where e: "t_execution r = Some e" "e \<in> set (map e_id es)"
        using refs by auto
      from r e have "\<not> e \<le> lo" by (simp add: execution_le_def)
      moreover from e(2) have "e < Suc n" unfolding ids by simp
      ultimately have "e \<in> set [Suc lo..<Suc (Suc n)]" by simp
      with e(1) show "\<exists>e. t_execution r = Some e \<and> e \<in> set (map e_id (?es1 @ [?new]))"
        unfolding k1 by blast
    qed
    have f: "filter (\<lambda>r. e_source r = src) (?es1 @ [?new]) = ?es1 @ [?new]"
      using k2 by (simp only: filter_id_conv)
    have m: "sql_max (map e_id (?es1 @ [?new])) = Some (Suc n)"
      unfolding k1 using sql_max_upt[of "Suc lo" "Suc (Suc n)"] lo_lt by simp
    have init: "initialize now ?p st =
        (None, ?p\<lparr>create := False, execution := Some (Suc n)\<rparr>,
         Some \<lparr>executions = Some (?es1 @ [?new]), testtime = Some ?ts1\<rparr>)"
      using initialize_cutoff[OF st tab p(1) d, of now]
      unfolding p(2) nx1 f m by (simp only: tab)
    have k1': "map e_id (?es1 @ [?new]) = [Suc (Suc n - min (Suc n) 6)..<Suc (Suc n)]"
      unfolding target k1 using False by simp
    have "kept src (Suc n) (Some \<lparr>executions = Some (?es1 @ [?new]), testtime = Some ?ts1\<rparr>)"
      by (rule keptI[OF _ k1' k2 k3]) simp
    with init p(2) False lo(4) show ?thesis by (simp add: st timing_rows_def)
  qed
qed

lemma added_execution:
  assumes "map (\<lambda>r. (t_source r, t_test r, t_duration r, t_execution r)) us =
           map (\<lambda>(test, d). (src', test, d, ex)) xs"
    and "r \<in> set us"
  shows "t_execution r = ex"
  using assms
proof (induction xs arbitrary: us)
  case Nil
  then show ?case by simp
next
  case (Cons x xs)
  then obtain u us' where us: "us = u # us'" by (cases us) auto
  with Cons show ?case
    by (cases x) auto
qed

lemma add_all_kept:
  assumes "kept src n st" and "n \<noteq> 0" and "execution q = Some n"
  shows "kept src n (add_all q xs st)"
proof -
  from assms(1,2) have "\<exists>es ts. st = Some \<lparr>executions = Some es, testtime = Some ts\<rparr> \<and>
              map e_id es = [Suc (n - min n 6)..<Suc n] \<and>
              (\<forall>r\<in>set es. e_source r = src) \<and>
              (\<forall>r\<in>set ts. \<exists>e. t_execution r = Some e \<and> e \<in> set (map e_id es))"
    by (simp only: kept_def if_False)
  then obtain es ts where
    st: "st = Some \<lparr>executions = Some es, testtime = Some ts\<rparr>" and
    ids: "map e_id es = [Suc (n - min n 6)..<Suc n]" and
    src: "\<forall>r\<in>set es. e_source r = src" and
    refs: "\<forall>r\<in>set ts. \<exists>e. t_execution r = Some e \<and> e \<in> set (map e_id es)"
    by blast
  have "testtime \<lparr>executions = Some es, testtime = Some ts\<rparr> = Some ts" by simp
  from add_all_rows[OF this, of q xs] obtain us where
    us: "add_all q xs st = Some \<lparr>executions = Some es, testtime = Some (ts @ us)\<rparr>"
        "map (\<lambda>r. (t_source r, t_test r, t_duration r, t_execution r)) us =
         map (\<lambda>(test, d). (source q, test, d, execution q)) xs"
    unfolding st by auto
  have n: "n \<in> set (map e_id es)"
    unfolding ids using assms(2) by simp
  have "\<forall>r\<in>set (ts @ us). \<exists>e. t_execution r = Some e \<and> e \<in> set (map e_id es)"
  proof
    fix r assume "r \<in> set (ts @ us)"
    then consider "r \<in> set ts" | "r \<in> set us" by auto
    then show "\<exists>e. t_execution r = Some e \<and> e \<in> set (map e_id es)"
    proof cases
      case 1
      with refs show ?thesis by blast
    next
      case 2
      from added_execution[OF us(2) 2] assms(3) n show ?thesis by simp
    qed
  qed
  then show ?thesis
    unfolding us(1) by (rule keptI[OF assms(2) ids src])
qed

lemma run_action_kept:
  assumes "kept src n st"
  shows "\<exists>st'. run_action path src a st = (None, st') \<and> kept src (Suc n) st'"
proof -
  from initialize_kept[OF assms, of "fst a" path] obtain p' st1 where
    i: "initialize (fst a) (Persistence_init st path src) st = (None, p', st1)"
       "execution p' = Some (Suc n)" "kept src (Suc n) st1"
    by blast
  have "kept src (Suc n) (add_all p' (snd a) st1)"
    by (rule add_all_kept[OF i(3) _ i(2)]) simp
  then show ?thesis
    by (simp add: run_action_def i(1))
qed

lemma run_actions_kept:
  assumes "kept src n st"
  shows "\<exists>st'. run_actions path src acts st = (None, st') \<and> kept src (n + length acts) st'"
  using assms
proof (induction acts arbitrary: n st)
  case Nil
  then show ?case by simp
next
  case (Cons a acts)
  from run_action_kept[OF Cons.prems, of path a] obtain st1 where
    a: "run_action path src a st = (None, st1)" "kept src (Suc n) st1"
    by blast
  from Cons.IH[OF a(2)] a(1) show ?case by simp
qed

lemma kept_rows:
  assumes "kept src n st"
  shows "map e_id (execution_rows st) = [Suc (n - min n 6)..<Suc n]"
    and "\<forall>r\<in>set (execution_rows st). e_source r = src"
    and "\<forall>r\<in>set (timing_rows st). \<exists>e. t_execution r = Some e \<and>
           e \<in> e_id ` set (execution_rows st)"
proof -
  have "map e_id (execution_rows st) = [Suc (n - min n 6)..<Suc n] \<and>
        (\<forall>r\<in>set (execution_rows st). e_source r = src) \<and>
        (\<forall>r\<in>set (timing_rows st). \<exists>e. t_execution r = Some e \<and>
           e \<in> e_id ` set (execution_rows st))"
  proof (cases "n = 0")
    case True
    with assms have "st = None" by (simp add: kept_def)
    with True show ?thesis by (simp add: execution_rows_def timing_rows_def)
  next
    case False
    with assms have "\<exists>es ts. st = Some \<lparr>executions = Some es, testtime = Some ts\<rparr> \<and>
              map e_id es = [Suc (n - min n 6)..<Suc n] \<and>
              (\<forall>r\<in>set es. e_source r = src) \<and>
              (\<forall>r\<in>set ts. \<exists>e. t_execution r = Some e \<and> e \<in> set (map e_id es))"
      by (simp only: kept_def if_False)
    then obtain es ts where
      st: "st = Some \<lparr>executions = Some es, testtime = Some ts\<rparr>" and
      ids: "map e_id es = [Suc (n - min n 6)..<Suc n]" and
      src: "\<forall>r\<in>set es. e_source r = src" and
      refs: "\<forall>r\<in>set ts. \<exists>e. t_execution r = Some e \<and> e \<in> set (map e_id es)"
      by blast
    have rows: "execution_rows st = es" "timing_rows st = ts"
      by (simp_all add: st execution_rows_def timing_rows_def)
    have "\<forall>r\<in>set ts. \<exists>e. t_execution r = Some e \<and> e \<in> e_id ` set es"
      using refs by simp
    with ids src show ?thesis
      unfolding rows by blast
  qed
  then show "map e_id (execution_rows st) = [Suc (n - min n 6)..<Suc n]"
    and "\<forall>r\<in>set (execution_rows st). e_source r = src"
    and "\<forall>r\<in>set (timing_rows st). \<exists>e. t_execution r = Some e \<and>
           e \<in> e_id ` set (execution_rows st)"
    by blast+
qed

text \<open>
  The timing rows through a run action: \<open>initialize\<close> removes those of the executions
  at or below the cutoff, and the additions of the action follow under the new id.
\<close>

lemma recorded_snoc:
  "recorded src lo (acts @ [a]) =
     recorded src lo acts @
     (if lo < Suc (length acts)
      then map (\<lambda>(test, d). (src, test, d, Some (Suc (length acts)))) (snd a) else [])"
proof -
  have "[1..<Suc (Suc (length acts))] = [1..<Suc (length acts)] @ [Suc (length acts)]"
    by simp
  then have "zip [1..<Suc (length (acts @ [a]))] (acts @ [a]) =
             zip [1..<Suc (length acts)] acts @ [(Suc (length acts), a)]"
    by (simp del: upt_Suc)
  then show ?thesis
    unfolding recorded_def by (simp del: upt_Suc)
qed

lemma filter_concat_map:
  assumes "\<And>x. x \<in> set xs \<Longrightarrow> filter P (f x) = (if Q' x then f x else [])"
    and "\<And>x. x \<in> set xs \<Longrightarrow> Q' x \<Longrightarrow> Q x"
  shows "filter P (concat (map f (filter Q xs))) = concat (map f (filter Q' xs))"
  using assms
proof (induction xs)
  case Nil
  then show ?case by simp
next
  case (Cons x xs)
  have ih: "filter P (concat (map f (filter Q xs))) = concat (map f (filter Q' xs))"
    by (rule Cons.IH) (simp_all add: Cons.prems)
  have x: "filter P (f x) = (if Q' x then f x else [])" "Q' x \<Longrightarrow> Q x"
    by (simp_all add: Cons.prems)
  show ?case
  proof (cases "Q x")
    case True
    then show ?thesis using ih x(1) by simp
  next
    case False
    with x(2) have "\<not> Q' x" by blast
    with False show ?thesis using ih by simp
  qed
qed

lemma recorded_raise:
  assumes "lo \<le> lo'"
  shows "filter (\<lambda>(s, t, d, e). case e of None \<Rightarrow> True | Some e \<Rightarrow> lo' < e)
           (recorded src lo acts) = recorded src lo' acts"
  unfolding recorded_def
proof (rule filter_concat_map, goal_cases)
  case (1 x)
  obtain i a where x: "x = (i, a)" by (cases x)
  show ?case
    unfolding x by (induction "snd a") (auto simp: case_prod_beta)
next
  case (2 x)
  with assms show ?case by (auto simp: case_prod_beta)
qed

lemma filter_execution_le:
  "map (\<lambda>r. (t_source r, t_test r, t_duration r, t_execution r))
     (filter (\<lambda>r. \<not> execution_le c r) ts) =
   filter (\<lambda>(s, t, d, e). case e of None \<Rightarrow> True | Some e \<Rightarrow> c < e)
     (map (\<lambda>r. (t_source r, t_test r, t_duration r, t_execution r)) ts)"
  by (induction ts) (auto simp: execution_le_def split: option.splits)

lemma run_action_recorded:
  assumes k: "kept src n st" and n: "n = length past"
    and r: "map (\<lambda>r. (t_source r, t_test r, t_duration r, t_execution r)) (timing_rows st) =
            recorded src (n - min n 6) past"
  shows "\<exists>st'. run_action path src a st = (None, st') \<and> kept src (Suc n) st' \<and>
           map (\<lambda>r. (t_source r, t_test r, t_duration r, t_execution r)) (timing_rows st') =
           recorded src (Suc n - min (Suc n) 6) (past @ [a])"
proof -
  let ?proj = "\<lambda>r. (t_source r, t_test r, t_duration r, t_execution r)"
  from initialize_kept[OF k, of "fst a" path] obtain p' st1 where
    i: "initialize (fst a) (Persistence_init st path src) st = (None, p', st1)"
       "source p' = src" "execution p' = Some (Suc n)" "kept src (Suc n) st1"
       "timing_rows st1 =
          (if n < 6 then timing_rows st
           else filter (\<lambda>r. \<not> execution_le (n - 5) r) (timing_rows st))"
    by blast
  have k2: "kept src (Suc n) (add_all p' (snd a) st1)"
    by (rule add_all_kept[OF i(4) _ i(3)]) simp
  from i(4) have "\<exists>es ts. st1 = Some \<lparr>executions = Some es, testtime = Some ts\<rparr>"
    unfolding kept_def by auto
  then obtain es ts where st1: "st1 = Some \<lparr>executions = Some es, testtime = Some ts\<rparr>"
    by blast
  have "testtime \<lparr>executions = Some es, testtime = Some ts\<rparr> = Some ts" by simp
  from add_all_rows[OF this, of p' "snd a"] obtain us where
    us: "add_all p' (snd a) st1 = Some \<lparr>executions = Some es, testtime = Some (ts @ us)\<rparr>"
        "map ?proj us = map (\<lambda>(test, d). (source p', test, d, execution p')) (snd a)"
    unfolding st1 by auto
  have rows: "timing_rows (add_all p' (snd a) st1) = timing_rows st1 @ us"
    unfolding us(1) by (simp add: st1 timing_rows_def)
  have old: "map ?proj (timing_rows st1) = recorded src (Suc n - min (Suc n) 6) past"
  proof (cases "n < 6")
    case True
    then have "n - min n 6 = 0" "Suc n - min (Suc n) 6 = 0" by simp_all
    with r i(5) True show ?thesis by simp
  next
    case False
    then have lo: "Suc n - min (Suc n) 6 = n - 5" "n - min n 6 \<le> n - 5" by simp_all
    have "map ?proj (timing_rows st1) =
          filter (\<lambda>(s, t, d, e). case e of None \<Rightarrow> True | Some e \<Rightarrow> n - 5 < e)
            (map ?proj (timing_rows st))"
      using False by (simp only: i(5) if_False filter_execution_le)
    also have "\<dots> = recorded src (n - 5) past"
      unfolding r by (rule recorded_raise[OF lo(2)])
    finally show ?thesis by (simp only: lo(1))
  qed
  have lt: "Suc n - min (Suc n) 6 < Suc (length past)"
    unfolding n[symmetric] by simp
  have "map ?proj (timing_rows (add_all p' (snd a) st1)) =
        recorded src (Suc n - min (Suc n) 6) (past @ [a])"
    unfolding rows recorded_snoc if_P[OF lt]
    by (simp only: map_append old us(2) i(2) i(3) n)
  with k2 show ?thesis
    by (simp add: run_action_def i(1))
qed

lemma run_actions_recorded:
  assumes "kept src (length past) st"
    and "map (\<lambda>r. (t_source r, t_test r, t_duration r, t_execution r)) (timing_rows st) =
         recorded src (length past - min (length past) 6) past"
  shows "\<exists>st'. run_actions path src acts st = (None, st') \<and>
           map (\<lambda>r. (t_source r, t_test r, t_duration r, t_execution r)) (timing_rows st') =
           recorded src (length (past @ acts) - min (length (past @ acts)) 6) (past @ acts)"
  using assms
proof (induction acts arbitrary: past st)
  case Nil
  then show ?case by simp
next
  case (Cons a acts)
  from run_action_recorded[OF Cons.prems(1) refl Cons.prems(2), of path a] obtain st1 where
    a: "run_action path src a st = (None, st1)" "kept src (Suc (length past)) st1"
       "map (\<lambda>r. (t_source r, t_test r, t_duration r, t_execution r)) (timing_rows st1) =
        recorded src (Suc (length past) - min (Suc (length past)) 6) (past @ [a])"
    by blast
  have l: "Suc (length past) = length (past @ [a])" by simp
  from Cons.IH[of "past @ [a]" st1] a(2,3) obtain st' where
    "run_actions path src acts st1 = (None, st')"
    "map (\<lambda>r. (t_source r, t_test r, t_duration r, t_execution r)) (timing_rows st') =
       recorded src (length ((past @ [a]) @ acts) - min (length ((past @ [a]) @ acts)) 6)
         ((past @ [a]) @ acts)"
    unfolding l by blast
  with a(1) show ?case by simp
qed

text \<open>
  Claim C1, as amended.  After \<open>M\<close> successive run actions for one source on a file that
  was absent before the first (each a fresh object, \<open>initialize\<close>, and any timings
  added), no call has failed, exactly \<open>min M 6\<close> execution rows of the source remain,
  namely those with the last \<open>min M 6\<close> of the ids \<open>1, ..., M\<close>, and every timing row
  that remains refers to an execution row that remains.  The timing rows that remain are
  exactly the timings that the last \<open>min M 6\<close> actions added, in the order of their
  insertion: those of a pruned execution are gone and those of a kept execution are all
  still there.  (The cutoff query skips five rows before the new row is inserted, so
  five earlier executions are kept beside the new one.)
\<close>

theorem rotation_keeps_six:
  "fst (run_actions path src acts None) = None \<and>
   length (filter (\<lambda>r. e_source r = src)
     (execution_rows (snd (run_actions path src acts None)))) = min (length acts) 6 \<and>
   map e_id (execution_rows (snd (run_actions path src acts None))) =
     [Suc (length acts - min (length acts) 6)..<Suc (length acts)] \<and>
   (\<forall>r\<in>set (timing_rows (snd (run_actions path src acts None))).
      \<exists>e. t_execution r = Some e \<and>
          e \<in> e_id ` set (execution_rows (snd (run_actions path src acts None)))) \<and>
   map (\<lambda>r. (t_source r, t_test r, t_duration r, t_execution r))
     (timing_rows (snd (run_actions path src acts None))) =
     recorded src (length acts - min (length acts) 6) acts"
proof -
  have k0: "kept src 0 None" by (simp add: kept_def)
  from run_actions_kept[OF this, of path acts] obtain st' where
    r: "run_actions path src acts None = (None, st')" and k: "kept src (length acts) st'"
    by auto
  have "kept src (length ([] :: (nat \<times> (string \<times> real) list) list)) None"
    using k0 by simp
  from run_actions_recorded[OF this, of path acts]
  have t: "map (\<lambda>r. (t_source r, t_test r, t_duration r, t_execution r)) (timing_rows st') =
           recorded src (length acts - min (length acts) 6) acts"
    by (simp add: r timing_rows_def recorded_def)
  note rows = kept_rows[OF k]
  have "filter (\<lambda>r. e_source r = src) (execution_rows st') = execution_rows st'"
    using rows(2) by (simp only: filter_id_conv)
  then have "length (filter (\<lambda>r. e_source r = src) (execution_rows st')) =
             length (map e_id (execution_rows st'))"
    by simp
  also have "\<dots> = min (length acts) 6"
    unfolding rows(1) by (simp del: upt_Suc)
  finally show ?thesis
    using rows(1,3) t by (simp add: r)
qed

theorem rotation_keeps_six_witness:
  "fst (run_actions ''db'' ''S''
      [(1, [(''t'', 1)]), (2, [(''t'', 2)]), (3, [(''t'', 3)]), (4, [(''t'', 4)]),
       (5, [(''t'', 5)]), (6, [(''t'', 6)]), (7, [(''t'', 7)])] None) = None \<and>
   length (filter (\<lambda>r. e_source r = ''S'') (execution_rows (snd (run_actions ''db'' ''S''
      [(1, [(''t'', 1)]), (2, [(''t'', 2)]), (3, [(''t'', 3)]), (4, [(''t'', 4)]),
       (5, [(''t'', 5)]), (6, [(''t'', 6)]), (7, [(''t'', 7)])] None)))) = 6 \<and>
   map e_id (execution_rows (snd (run_actions ''db'' ''S''
      [(1, [(''t'', 1)]), (2, [(''t'', 2)]), (3, [(''t'', 3)]), (4, [(''t'', 4)]),
       (5, [(''t'', 5)]), (6, [(''t'', 6)]), (7, [(''t'', 7)])] None))) = [2, 3, 4, 5, 6, 7] \<and>
   map t_execution (timing_rows (snd (run_actions ''db'' ''S''
      [(1, [(''t'', 1)]), (2, [(''t'', 2)]), (3, [(''t'', 3)]), (4, [(''t'', 4)]),
       (5, [(''t'', 5)]), (6, [(''t'', 6)]), (7, [(''t'', 7)])] None))) =
     [Some 2, Some 3, Some 4, Some 5, Some 6, Some 7] \<and>
   map (\<lambda>r. (t_source r, t_test r, t_duration r, t_execution r))
     (timing_rows (snd (run_actions ''db'' ''S''
      [(1, [(''t'', 1)]), (2, [(''t'', 2)]), (3, [(''t'', 3)]), (4, [(''t'', 4)]),
       (5, [(''t'', 5)]), (6, [(''t'', 6)]), (7, [(''t'', 7)])] None))) =
     [(''S'', ''t'', 2, Some 2), (''S'', ''t'', 3, Some 3), (''S'', ''t'', 4, Some 4),
      (''S'', ''t'', 5, Some 5), (''S'', ''t'', 6, Some 6), (''S'', ''t'', 7, Some 7)]"
proof -
  let ?acts = "[(1 :: nat, [(''t'', 1 :: real)]), (2, [(''t'', 2)]), (3, [(''t'', 3)]),
       (4, [(''t'', 4)]), (5, [(''t'', 5)]), (6, [(''t'', 6)]), (7, [(''t'', 7)])]"
  have l: "length ?acts = 7" by simp
  have u: "[Suc (7 - min 7 6)..<Suc 7] = [2, 3, 4, 5, 6, 7 :: nat]"
    by (simp add: upt_rec)
  have t: "map t_execution (timing_rows (snd (run_actions ''db'' ''S'' ?acts None))) =
     [Some 2, Some 3, Some 4, Some 5, Some 6, Some 7]"
    by code_simp
  have c: "recorded ''S'' (7 - min 7 6) ?acts =
     [(''S'', ''t'', 2, Some 2), (''S'', ''t'', 3, Some 3), (''S'', ''t'', 4, Some 4),
      (''S'', ''t'', 5, Some 5), (''S'', ''t'', 6, Some 6), (''S'', ''t'', 7, Some 7)]"
    by code_simp
  from rotation_keeps_six[of "''db''" "''S''" ?acts] t show ?thesis
    unfolding l u c by simp
qed

text \<open>
  The claim as stated, with \<open>min M 5\<close>, fails at \<open>M = 6\<close>: six execution rows remain
  after six run actions, the oldest among them.
\<close>

theorem rotation_five_counterexample:
  "\<not> (length (filter (\<lambda>r. e_source r = ''S'') (execution_rows (snd (run_actions ''db'' ''S''
      [(1, [(''t'', 1)]), (2, [(''t'', 2)]), (3, [(''t'', 3)]), (4, [(''t'', 4)]),
       (5, [(''t'', 5)]), (6, [(''t'', 6)])] None)))) = min 6 5) \<and>
   map e_id (execution_rows (snd (run_actions ''db'' ''S''
      [(1, [(''t'', 1)]), (2, [(''t'', 2)]), (3, [(''t'', 3)]), (4, [(''t'', 4)]),
       (5, [(''t'', 5)]), (6, [(''t'', 6)])] None))) = [1, 2, 3, 4, 5, 6]"
  by code_simp

section \<open>The report of \<open>show\<close>\<close>




text \<open>A file in which the timing table is missing makes the first query fail.\<close>

lemma show_store_no_table:
  "testtime db = None \<Longrightarrow>
   show_store (Some db) = Inl (OperationalError ''no such table: testtime'')"
  by (simp add: show_store_def)




section \<open>Starting the workers\<close>

lemma start_workers_state:
  "start_workers ws s =
     s\<lparr>shared_queue := replicate (length ws) (INFINITE, FINISH) @ shared_queue s,
       trace := trace s @
         concat (map (\<lambda>t. [Thread_start (w_name t), Queue_put INFINITE FINISH]) ws)\<rparr>"
proof (induction ws arbitrary: s)
  case Nil
  then show ?case by simp
next
  case (Cons t ws)
  have "replicate (length ws) (INFINITE, FINISH) @ (INFINITE, FINISH) # shared_queue s =
        (INFINITE, FINISH) # replicate (length ws) (INFINITE, FINISH) @ shared_queue s"
    by (simp add: replicate_append_same)
  then show ?case
    by (simp add: Cons.IH put_def)
qed

lemma count_starts:
  "length (filter is_start
     (concat (map (\<lambda>t. [Thread_start (w_name t), Queue_put INFINITE FINISH]) ws))) = length ws"
  by (induction ws) simp_all

lemma count_sentinels:
  "length (filter is_sentinel_put
     (concat (map (\<lambda>t. [Thread_start (w_name t), Queue_put INFINITE FINISH]) ws))) = length ws"
  by (induction ws) simp_all

text \<open>
  Claim C2, as amended.  \<open>start_workers\<close> puts exactly one sentinel on the queue for
  every worker, and the puts alternate with the starts: the sentinel of a worker is put
  right after that worker is started and before the next worker is started.  Nothing
  else changes.
\<close>

theorem start_workers_alternates:
  "new_events s (start_workers ws s) =
     concat (map (\<lambda>t. [Thread_start (w_name t), Queue_put INFINITE FINISH]) ws) \<and>
   length (filter is_sentinel_put (new_events s (start_workers ws s))) = length ws \<and>
   length (filter is_start (new_events s (start_workers ws s))) = length ws \<and>
   shared_queue (start_workers ws s) =
     replicate (length ws) (INFINITE, FINISH) @ shared_queue s \<and>
   file_store (start_workers ws s) = file_store s"
  by (simp add: start_workers_state new_events_def count_starts count_sentinels)

theorem start_workers_alternates_witness:
  "new_events (started scenario_store)
     (start_workers
        (workers (create_workers (scenario_paratest 2 no_scripts [''t1'', ''t2''])
                    (scenario_plugin [''t1'', ''t2'']) 2))
        (started scenario_store)) =
     [Thread_start ''0'', Queue_put INFINITE FINISH,
      Thread_start ''1'', Queue_put INFINITE FINISH] \<and>
   shared_queue
     (start_workers
        (workers (create_workers (scenario_paratest 2 no_scripts [''t1'', ''t2''])
                    (scenario_plugin [''t1'', ''t2'']) 2))
        (started scenario_store)) = [(INFINITE, FINISH), (INFINITE, FINISH)]"
proof -
  have n: "map w_name (workers (create_workers (scenario_paratest 2 no_scripts [''t1'', ''t2''])
                    (scenario_plugin [''t1'', ''t2'']) 2)) = [''0'', ''1'']"
    by code_simp
  have c: "concat (map (\<lambda>t. [Thread_start (w_name t), Queue_put INFINITE FINISH]) ws) =
        concat (map (\<lambda>nm. [Thread_start nm, Queue_put INFINITE FINISH]) (map w_name ws))"
    for ws
    by (simp add: comp_def)
  have l: "length (workers (create_workers (scenario_paratest 2 no_scripts [''t1'', ''t2''])
                    (scenario_plugin [''t1'', ''t2'']) 2)) = 2"
    using arg_cong[OF n, of length] by simp
  from start_workers_alternates[of "started scenario_store"
      "workers (create_workers (scenario_paratest 2 no_scripts [''t1'', ''t2''])
                    (scenario_plugin [''t1'', ''t2'']) 2)"]
  show ?thesis
    unfolding c n l by (simp add: started_def numeral_2_eq_2)
qed

text \<open>
  The claim as stated asks that every sentinel is put only after all workers have been
  started.  In a run with two tests and two workers the first sentinel is put before the
  second worker is started.
\<close>

theorem start_workers_counterexample:
  "fst (Paratest_run quiet_shell (scenario_paratest 2 no_scripts [''t1'', ''t2'']) ''plug''
          (started scenario_store)) = Completed \<and>
   filter (\<lambda>e. is_start e \<or> is_sentinel_put e)
     (trace (snd (snd (Paratest_run quiet_shell
        (scenario_paratest 2 no_scripts [''t1'', ''t2'']) ''plug'' (started scenario_store))))) =
     [Thread_start ''0'', Queue_put INFINITE FINISH,
      Thread_start ''1'', Queue_put INFINITE FINISH] \<and>
   \<not> sentinels_after_all_starts
     (trace (snd (snd (Paratest_run quiet_shell
        (scenario_paratest 2 no_scripts [''t1'', ''t2'']) ''plug'' (started scenario_store)))))"
  by code_simp

section \<open>A run that finds no test\<close>

text \<open>
  Claim C9.  When the plugin finds no test and the run-wide setup and teardown hooks
  succeed, \<open>run\<close> completes without raising: no worker is created (the count is the
  minimum of the configured number and zero, and a count that is not positive creates
  none), no thread is started, no sentinel is put, the queue stays empty, the store is
  not touched, and the check of the queue at the end passes.
\<close>

theorem run_without_tests:
  assumes "pluginmgr par nm = Some pluginobj"
    and "find_tests pluginobj (source_path par) (test_pattern par) = []"
    and "workers par = []"
    and "shared_queue s = []"
    and "\<forall>history. \<not> truthy (run_script sh history (s_setup (scripts_of par))
                                 [(''path'', workspace_path par)])"
    and "\<forall>history. \<not> truthy (run_script sh history (s_teardown (scripts_of par))
                                 [(''path'', workspace_path par)])"
  shows "\<exists>rc1 rc2.
           Paratest_run sh par nm s =
             (Completed, par,
              s\<lparr>trace := trace s @ [Script Setup [] rc1, Script Teardown [] rc2]\<rparr>) \<and>
           workers (fst (snd (Paratest_run sh par nm s))) = [] \<and>
           shared_queue (snd (snd (Paratest_run sh par nm s))) = [] \<and>
           file_store (snd (snd (Paratest_run sh par nm s))) = file_store s \<and>
           filter is_sentinel_put (new_events s (snd (snd (Paratest_run sh par nm s)))) = [] \<and>
           filter is_start (new_events s (snd (snd (Paratest_run sh par nm s)))) = []"
proof -
  define rc1 where
    "rc1 = run_script sh (trace s) (s_setup (scripts_of par)) [(''path'', workspace_path par)]"
  define s1 where "s1 = s\<lparr>trace := trace s @ [Script Setup [] rc1]\<rparr>"
  define rc2 where
    "rc2 = run_script sh (trace s1) (s_teardown (scripts_of par)) [(''path'', workspace_path par)]"
  define s2 where "s2 = s1\<lparr>trace := trace s1 @ [Script Teardown [] rc2]\<rparr>"
  have ok1: "\<not> truthy rc1" and ok2: "\<not> truthy rc2"
    using assms(5,6) by (simp_all add: rc1_def rc2_def)
  have a: "run_script_setup sh par s = (None, s1)"
    using ok1 by (simp add: run_script_setup_def rc1_def[symmetric] s1_def Let_def)
  have b: "queue_tests par pluginobj s1 = (Inr 0, s1)"
    by (simp add: queue_tests_def assms(2))
  have n: "nat (num_of_workers par 0) = 0"
    by (simp add: num_of_workers_def)
  have c: "create_workers par pluginobj (num_of_workers par 0) = par"
    by (simp add: create_workers_def n)
  have d: "start_workers (workers par) s1 = s1" "wait_workers sh (workers par) s1 = (True, s1)"
    by (simp_all add: assms(3))
  have e: "run_script_teardown sh par s1 = (None, s2)"
    using ok2 by (simp add: run_script_teardown_def rc2_def[symmetric] s2_def Let_def)
  have f: "assert_all_messages_were_processed s2 = None"
    by (simp add: assert_all_messages_were_processed_def queue_empty_def s2_def s1_def assms(4))
  have run: "Paratest_run sh par nm s = (Completed, par, s2)"
    by (simp add: Paratest_run_def assms(1) a b c d e f)
  have s2: "s2 = s\<lparr>trace := trace s @ [Script Setup [] rc1, Script Teardown [] rc2]\<rparr>"
    by (simp add: s2_def s1_def)
  show ?thesis
    by (rule exI[of _ rc1], rule exI[of _ rc2])
       (simp add: run s2 assms(3,4) new_events_def)
qed

theorem run_without_tests_witness:
  "fst (Paratest_run quiet_shell
     (scenario_paratest 5
        (no_scripts\<lparr>s_setup := Some ''make'', s_teardown := Some ''clean''\<rparr>) [])
     ''plug'' (started None)) = Completed \<and>
   workers (fst (snd (Paratest_run quiet_shell
     (scenario_paratest 5
        (no_scripts\<lparr>s_setup := Some ''make'', s_teardown := Some ''clean''\<rparr>) [])
     ''plug'' (started None)))) = [] \<and>
   shared_queue (snd (snd (Paratest_run quiet_shell
     (scenario_paratest 5
        (no_scripts\<lparr>s_setup := Some ''make'', s_teardown := Some ''clean''\<rparr>) [])
     ''plug'' (started None)))) = [] \<and>
   trace (snd (snd (Paratest_run quiet_shell
     (scenario_paratest 5
        (no_scripts\<lparr>s_setup := Some ''make'', s_teardown := Some ''clean''\<rparr>) [])
     ''plug'' (started None)))) =
     [Script Setup [] (Some 0), Script Teardown [] (Some 0)]"
proof -
  let ?par = "scenario_paratest 5
        (no_scripts\<lparr>s_setup := Some ''make'', s_teardown := Some ''clean''\<rparr>) []"
  have 1: "pluginmgr ?par ''plug'' = Some (scenario_plugin [])"
    by (simp add: scenario_paratest_def)
  have 2: "find_tests (scenario_plugin []) (source_path ?par) (test_pattern ?par) = []"
    by (simp add: scenario_plugin_def)
  have 3: "workers ?par = []"
    by (simp add: scenario_paratest_def)
  have 4: "shared_queue (started None) = []"
    by (simp add: started_def)
  have 5: "\<forall>history. \<not> truthy (run_script quiet_shell history (s_setup (scripts_of ?par))
                                 [(''path'', workspace_path ?par)])"
    by (simp add: scenario_paratest_def no_scripts_def run_script_def quiet_shell_def truthy_def)
  have 6: "\<forall>history. \<not> truthy (run_script quiet_shell history (s_teardown (scripts_of ?par))
                                 [(''path'', workspace_path ?par)])"
    by (simp add: scenario_paratest_def no_scripts_def run_script_def quiet_shell_def truthy_def)
  from run_without_tests[OF 1 2 3 4 5 6]
  have a: "fst (Paratest_run quiet_shell ?par ''plug'' (started None)) = Completed"
    and b: "workers (fst (snd (Paratest_run quiet_shell ?par ''plug'' (started None)))) = []"
    and c: "shared_queue (snd (snd (Paratest_run quiet_shell ?par ''plug'' (started None)))) = []"
    by auto
  have d: "trace (snd (snd (Paratest_run quiet_shell ?par ''plug'' (started None)))) =
     [Script Setup [] (Some 0), Script Teardown [] (Some 0)]"
    by code_simp
  from a b c d show ?thesis by blast
qed

section \<open>The loop of a worker\<close>

lemma steps_append: "steps nm (xs @ ys) = steps nm xs @ steps nm ys"
  by (induction xs) (simp_all split: option.splits)

lemma gets_of_append: "gets_of nm (xs @ ys) = gets_of nm xs @ gets_of nm ys"
  by (induction nm xs rule: gets_of.induct) simp_all

lemma worker_run_script_result:
  "worker_run_script sh w h script message s =
     (if truthy (run_script sh (trace s) script
                   [(''id'', w_name w), (''workspace'', w_workspace_path w),
                    (''source'', w_source_path w), (''output'', w_output_path w)])
      then Some (Abort message) else None,
      s\<lparr>trace := trace s @
         [Script h (w_name w) (run_script sh (trace s) script
            [(''id'', w_name w), (''workspace'', w_workspace_path w),
             (''source'', w_source_path w), (''output'', w_output_path w)])]\<rparr>)"
  by (simp add: worker_run_script_def Let_def)

text \<open>A hook of a worker adds its one event to the trace and changes nothing else.\<close>

lemma worker_hook_state:
  assumes "worker_run_script sh w h script message s = (r, s')"
  shows "\<exists>rc. s' = s\<lparr>trace := trace s @ [Script h (w_name w) rc]\<rparr>"
  using assms by (auto simp: worker_run_script_result)

text \<open>
  \<open>process\<close> leaves the queue alone and adds only events of the plugin and of the log.
\<close>

lemma process_state:
  "\<exists>st evs. process w item s = s\<lparr>file_store := st, trace := trace s @ evs\<rparr> \<and>
     steps nm evs = [] \<and> gets_of nm evs = []"
proof (cases "item = FINISH")
  case True
  have "s = s\<lparr>file_store := file_store s, trace := trace s @ []\<rparr>" by simp
  then show ?thesis
    unfolding process_def using True
    by (intro exI[of _ "file_store s"] exI[of _ "[]"]) simp
next
  case False
  show ?thesis
  proof (cases "run_test (w_plugin w) (trace s) (w_name w) item (w_workspace_path w)
                  (w_output_path w)")
    case (Raised m)
    have "s\<lparr>trace := trace s @ [Plugin_run (w_name w) item (Raised m), Log_exception (w_name w) m]\<rparr>
        = s\<lparr>file_store := file_store s,
            trace := trace s @ [Plugin_run (w_name w) item (Raised m), Log_exception (w_name w) m]\<rparr>"
      by simp
    then show ?thesis
      using False Raised
      by (intro exI[of _ "file_store s"]
            exI[of _ "[Plugin_run (w_name w) item (Raised m), Log_exception (w_name w) m]"])
         (simp add: process_def)
  next
    case (Returned d)
    obtain e st where a: "add (w_persistence w) item d (file_store s) = (e, st)"
      by (cases "add (w_persistence w) item d (file_store s)")
    show ?thesis
    proof (cases e)
      case None
      then show ?thesis
        using False Returned a
        by (intro exI[of _ st] exI[of _ "[Plugin_run (w_name w) item (Returned d)]"])
           (simp add: process_def)
    next
      case (Some err)
      then show ?thesis
        using False Returned a
        by (intro exI[of _ st]
              exI[of _ "[Plugin_run (w_name w) item (Returned d),
                         Log_exception (w_name w) (error_text err)]"])
           (simp add: process_def)
    qed
  qed
qed

text \<open>\<open>get\<close> hands out the least entry, which is the head of the sorted queue.\<close>

lemma get_least:
  assumes "get q = Some (e, q')"
  shows "e \<in> set q" and "\<forall>x\<in>set q. e \<le> x" and "mset q = add_mset e (mset q')"
    and "set q' \<subseteq> set q"
proof -
  from assms have ne: "q \<noteq> []" and e: "e = Min (set q)" and q': "q' = remove1 e q"
    by (auto simp: get_def split: if_splits)
  show "e \<in> set q" unfolding e using ne by (intro Min_in) auto
  then show "mset q = add_mset e (mset q')" by (simp add: q')
  show "\<forall>x\<in>set q. e \<le> x" unfolding e by simp
  show "set q' \<subseteq> set q" unfolding q' by (rule set_remove1_subset)
qed

lemma get_sort:
  assumes "get q = Some (e, q')"
  shows "sort q = e # sort q'"
proof (rule properties_for_sort)
  note g = get_least[OF assms]
  show "mset (e # sort q') = mset q" using g(3) by simp
  show "sorted (e # sort q')" using g(2,4) by auto
qed

lemma get_None: "get q = None \<longleftrightarrow> q = []"
  by (simp add: get_def)

lemma get_shorter: "get q = Some (e, q') \<Longrightarrow> length q = Suc (length q')"
  using get_least(3)[of q e q'] by (metis size_mset size_add_mset)

text \<open>One iteration of the loop of a worker that gets an entry.\<close>

lemma worker_loop_iteration:
  assumes su: "run_script_setup_test sh w s = (None, s1)"
    and g: "get (shared_queue s1) = Some ((pri, item), q)"
  shows "\<exists>r4 s4 it.
     worker_loop sh w s =
       (case r4 of Some e \<Rightarrow> (Died e, s4)
        | None \<Rightarrow> if item \<noteq> [] then worker_loop sh w s4 else (Finished, s4)) \<and>
     trace s4 = trace s @ it \<and> shared_queue s4 = q \<and> shared_queue s1 = shared_queue s \<and>
     steps (w_name w) it = [Setup_step, Get_step item, Teardown_step] \<and>
     gets_of (w_name w) it = [(pri, item)]"
proof -
  let ?nm = "w_name w"
  from su obtain rc1 where s1: "s1 = s\<lparr>trace := trace s @ [Script Setup_test ?nm rc1]\<rparr>"
    unfolding run_script_setup_test_def by (blast dest: worker_hook_state)
  define s1' where
    "s1' = s1\<lparr>shared_queue := q, trace := trace s1 @ [Queue_get ?nm pri item]\<rparr>"
  obtain st evs where
    p: "process w item s1' = s1'\<lparr>file_store := st, trace := trace s1' @ evs\<rparr>"
       "steps ?nm evs = []" "gets_of ?nm evs = []"
    using process_state[of w item s1' ?nm] by blast
  define s3 where
    "s3 = (process w item s1')\<lparr>trace := trace (process w item s1') @ [Task_done ?nm]\<rparr>"
  obtain r4 s4 where td: "run_script_teardown_test sh w s3 = (r4, s4)"
    by (cases "run_script_teardown_test sh w s3")
  then obtain rc4 where s4: "s4 = s3\<lparr>trace := trace s3 @ [Script Teardown_test ?nm rc4]\<rparr>"
    unfolding run_script_teardown_test_def by (blast dest: worker_hook_state)
  let ?it = "[Script Setup_test ?nm rc1, Queue_get ?nm pri item] @ evs @
             [Task_done ?nm, Script Teardown_test ?nm rc4]"
  have loop: "worker_loop sh w s =
       (case r4 of Some e \<Rightarrow> (Died e, s4)
        | None \<Rightarrow> if item \<noteq> [] then worker_loop sh w s4 else (Finished, s4))"
    by (subst worker_loop.simps)
       (simp add: su g Let_def s1'_def[symmetric] s3_def[symmetric] td split: option.splits)
  have ptr: "trace (process w item s1') = trace s1' @ evs"
    and pq: "shared_queue (process w item s1') = shared_queue s1'"
    unfolding p(1) by simp_all
  have "trace s4 = trace s1' @ evs @ [Task_done ?nm, Script Teardown_test ?nm rc4]"
    by (simp add: s4 s3_def ptr)
  then have tr: "trace s4 = trace s @ ?it"
    by (simp add: s1'_def s1)
  have "shared_queue s4 = shared_queue s1'"
    by (simp add: s4 s3_def pq)
  then have q: "shared_queue s4 = q"
    by (simp add: s1'_def)
  have q1: "shared_queue s1 = shared_queue s"
    by (simp add: s1)
  have st: "steps ?nm ?it = [Setup_step, Get_step item, Teardown_step]"
    by (simp add: steps_append p(2))
  have ge: "gets_of ?nm ?it = [(pri, item)]"
    by (simp add: gets_of_append p(3))
  from loop tr q q1 st ge show ?thesis by blast
qed

lemma worker_loop_no_entry:
  assumes "run_script_setup_test sh w s = (r, s1)"
    and "r \<noteq> None \<or> get (shared_queue s1) = None"
  shows "\<exists>rc. worker_loop sh w s =
           ((case r of Some e \<Rightarrow> Died e | None \<Rightarrow> Blocked),
            s\<lparr>trace := trace s @ [Script Setup_test (w_name w) rc]\<rparr>)"
proof -
  from assms(1) obtain rc where
    s1: "s1 = s\<lparr>trace := trace s @ [Script Setup_test (w_name w) rc]\<rparr>"
    unfolding run_script_setup_test_def by (blast dest: worker_hook_state)
  have "worker_loop sh w s = ((case r of Some e \<Rightarrow> Died e | None \<Rightarrow> Blocked), s1)"
    using assms by (subst worker_loop.simps) (auto split: option.splits)
  with s1 show ?thesis by blast
qed

lemma rounds_Cons: "rounds (i # items) = [Setup_step, Get_step i, Teardown_step] @ rounds items"
  by (simp add: rounds_def)

text \<open>
  The shape of every run of the loop: rounds of setup-test, dequeue and teardown-test,
  followed by one more call of the setup-test hook when the hook failed or the queue was
  empty.  The entries dequeued are an initial part of the queue in ascending order.
\<close>

lemma worker_loop_shape:
  assumes "worker_loop sh w s = (out, s')"
  shows "\<exists>tr rest. trace s' = trace s @ tr \<and>
      steps (w_name w) tr = rounds (map snd (gets_of (w_name w) tr)) @ rest \<and>
      (rest = [] \<or> rest = [Setup_step]) \<and>
      (gets_of (w_name w) tr \<noteq> [] \<and> snd (last (gets_of (w_name w) tr)) = FINISH
         \<longrightarrow> rest = []) \<and>
      gets_of (w_name w) tr = take (length (gets_of (w_name w) tr)) (sort (shared_queue s)) \<and>
      FINISH \<notin> set (butlast (map snd (gets_of (w_name w) tr)))"
  using assms
proof (induction "length (shared_queue s)" arbitrary: s rule: less_induct)
  case less
  let ?nm = "w_name w"
  obtain r s1 where su: "run_script_setup_test sh w s = (r, s1)"
    by (cases "run_script_setup_test sh w s")
  show ?case
  proof (cases "r \<noteq> None \<or> get (shared_queue s1) = None")
    case True
    from worker_loop_no_entry[OF su True] less.prems obtain rc where
      "s' = s\<lparr>trace := trace s @ [Script Setup_test ?nm rc]\<rparr>"
      by auto
    then have "trace s' = trace s @ [Script Setup_test ?nm rc]" by simp
    then show ?thesis
      by (intro exI[of _ "[Script Setup_test ?nm rc]"] exI[of _ "[Setup_step]"])
         (simp add: rounds_def)
  next
    case False
    then obtain pri item q where r: "r = None"
      and g: "get (shared_queue s1) = Some ((pri, item), q)"
      by (cases "get (shared_queue s1)") auto
    from worker_loop_iteration[OF su[unfolded r] g] obtain r4 s4 it where
      loop: "worker_loop sh w s =
         (case r4 of Some e \<Rightarrow> (Died e, s4)
          | None \<Rightarrow> if item \<noteq> [] then worker_loop sh w s4 else (Finished, s4))"
      and tr: "trace s4 = trace s @ it" and q4: "shared_queue s4 = q"
      and q1: "shared_queue s1 = shared_queue s"
      and st: "steps ?nm it = [Setup_step, Get_step item, Teardown_step]"
      and ge: "gets_of ?nm it = [(pri, item)]"
      by blast
    have srt: "sort (shared_queue s) = (pri, item) # sort q"
      using get_sort[OF g] by (simp add: q1)
    show ?thesis
    proof (cases "r4 = None \<and> item \<noteq> []")
      case False
      then have "s' = s4"
        using loop less.prems by (auto split: option.splits if_splits)
      then show ?thesis
        by (intro exI[of _ it] exI[of _ "[]"]) (simp add: tr st ge rounds_def srt)
    next
      case True
      then have rec: "worker_loop sh w s4 = (out, s')"
        using loop less.prems by simp
      have "length (shared_queue s4) < length (shared_queue s)"
        using get_shorter[OF g] by (simp add: q4 q1)
      from less.hyps[OF this rec] obtain tr' rest where
        ih: "trace s' = trace s4 @ tr'"
          "steps ?nm tr' = rounds (map snd (gets_of ?nm tr')) @ rest"
          "rest = [] \<or> rest = [Setup_step]"
          "gets_of ?nm tr' \<noteq> [] \<and> snd (last (gets_of ?nm tr')) = FINISH \<longrightarrow> rest = []"
          "gets_of ?nm tr' = take (length (gets_of ?nm tr')) (sort (shared_queue s4))"
          "FINISH \<notin> set (butlast (map snd (gets_of ?nm tr')))"
        by blast
      have 1: "trace s' = trace s @ (it @ tr')"
        by (simp add: ih(1) tr)
      have 2: "gets_of ?nm (it @ tr') = (pri, item) # gets_of ?nm tr'"
        by (simp add: gets_of_append ge)
      have 3: "steps ?nm (it @ tr') = rounds (map snd (gets_of ?nm (it @ tr'))) @ rest"
        by (simp add: steps_append st ih(2) 2 rounds_Cons)
      have 4: "gets_of ?nm (it @ tr') \<noteq> [] \<and> snd (last (gets_of ?nm (it @ tr'))) = FINISH
               \<longrightarrow> rest = []"
        using ih(4) True by (auto simp: 2 FINISH_def)
      have 5: "gets_of ?nm (it @ tr') =
               take (length (gets_of ?nm (it @ tr'))) (sort (shared_queue s))"
        using ih(5) by (simp add: 2 srt q4)
      have 6: "FINISH \<notin> set (butlast (map snd (gets_of ?nm (it @ tr'))))"
        using ih(6) True by (auto simp: 2 FINISH_def)
      from 1 3 ih(3) 4 5 6 show ?thesis by blast
    qed
  qed
qed

lemma Worker_run_shape:
  assumes "Worker_run sh w s = (out, s')"
  shows "\<exists>tr rest. trace s' = trace s @ tr \<and>
      steps (w_name w) tr = rounds (map snd (gets_of (w_name w) tr)) @ rest \<and>
      (rest = [] \<or> rest = [Setup_step]) \<and>
      (gets_of (w_name w) tr \<noteq> [] \<and> snd (last (gets_of (w_name w) tr)) = FINISH
         \<longrightarrow> rest = []) \<and>
      gets_of (w_name w) tr = take (length (gets_of (w_name w) tr)) (sort (shared_queue s)) \<and>
      FINISH \<notin> set (butlast (map snd (gets_of (w_name w) tr)))"
proof -
  let ?nm = "w_name w"
  obtain r0 s0 where sw: "run_script_setup_workspace sh w s = (r0, s0)"
    by (cases "run_script_setup_workspace sh w s")
  then obtain rc0 where s0: "s0 = s\<lparr>trace := trace s @ [Script Setup_workspace ?nm rc0]\<rparr>"
    unfolding run_script_setup_workspace_def by (blast dest: worker_hook_state)
  show ?thesis
  proof (cases r0)
    case (Some e)
    then have "s' = s0"
      using assms sw by (simp add: Worker_run_def)
    then have "trace s' = trace s @ [Script Setup_workspace ?nm rc0]"
      by (simp add: s0)
    then show ?thesis
      by (intro exI[of _ "[Script Setup_workspace ?nm rc0]"] exI[of _ "[]"])
         (simp add: rounds_def)
  next
    case None
    obtain o2 s2 where lp: "worker_loop sh w s0 = (o2, s2)"
      by (cases "worker_loop sh w s0")
    from worker_loop_shape[OF lp] obtain tr rest where
      sh: "trace s2 = trace s0 @ tr"
        "steps ?nm tr = rounds (map snd (gets_of ?nm tr)) @ rest"
        "rest = [] \<or> rest = [Setup_step]"
        "gets_of ?nm tr \<noteq> [] \<and> snd (last (gets_of ?nm tr)) = FINISH \<longrightarrow> rest = []"
        "gets_of ?nm tr = take (length (gets_of ?nm tr)) (sort (shared_queue s0))"
        "FINISH \<notin> set (butlast (map snd (gets_of ?nm tr)))"
      by blast
    have q0: "shared_queue s0 = shared_queue s" by (simp add: s0)
    have "\<exists>post. trace s' = trace s2 @ post \<and> steps ?nm post = [] \<and> gets_of ?nm post = []"
    proof (cases o2)
      case Finished
      obtain r3 s3 where tw: "run_script_teardown_workspace sh w s2 = (r3, s3)"
        by (cases "run_script_teardown_workspace sh w s2")
      then obtain rc3 where
        s3: "s3 = s2\<lparr>trace := trace s2 @ [Script Teardown_workspace ?nm rc3]\<rparr>"
        unfolding run_script_teardown_workspace_def by (blast dest: worker_hook_state)
      have "s' = s3"
        using assms sw None lp Finished tw by (auto simp: Worker_run_def split: option.splits)
      then show ?thesis
        by (intro exI[of _ "[Script Teardown_workspace ?nm rc3]"]) (simp add: s3)
    next
      case (Died e)
      then have "s' = s2"
        using assms sw None lp by (simp add: Worker_run_def)
      then show ?thesis by (intro exI[of _ "[]"]) simp
    next
      case Blocked
      then have "s' = s2"
        using assms sw None lp by (simp add: Worker_run_def)
      then show ?thesis by (intro exI[of _ "[]"]) simp
    qed
    then obtain post where
      post: "trace s' = trace s2 @ post" "steps ?nm post = []" "gets_of ?nm post = []"
      by blast
    let ?tr = "[Script Setup_workspace ?nm rc0] @ tr @ post"
    have 1: "trace s' = trace s @ ?tr"
      by (simp add: post(1) sh(1) s0)
    have 2: "gets_of ?nm ?tr = gets_of ?nm tr"
      by (simp add: gets_of_append post(3))
    have 3: "steps ?nm ?tr = steps ?nm tr"
      by (simp add: steps_append post(2))
    from sh(2-6) show ?thesis
      unfolding q0 2[symmetric] 3[symmetric] using 1 by blast
  qed
qed

lemma new_events_append: "trace s' = trace s @ tr \<Longrightarrow> new_events s s' = tr"
  by (simp add: new_events_def)

lemma count_rounds:
  "length (filter (\<lambda>x. x = Setup_step) (rounds items)) = length items"
  "length (filter (\<lambda>x. x = Teardown_step) (rounds items)) = length items"
  by (induction items) (simp_all add: rounds_def)

text \<open>
  Claim C5.  A worker that dequeues \<open>k\<close> tids and then the sentinel (none of the \<open>k\<close>
  is the sentinel) calls the setup-test hook before every dequeue and the teardown-test
  hook after every dequeue, the dequeue of the sentinel included: its steps are exactly
  \<open>k + 1\<close> rounds of setup-test, dequeue, teardown-test, so each of the two hooks is
  called \<open>k + 1\<close> times.  This holds whatever the hooks and the tests do.
\<close>

theorem hooks_around_every_dequeue:
  assumes "Worker_run sh w s = (out, s')"
    and "map snd (gets_of (w_name w) (new_events s s')) = ts @ [FINISH]"
  shows "(\<forall>t\<in>set ts. t \<noteq> FINISH) \<and>
         steps (w_name w) (new_events s s') = rounds (ts @ [FINISH]) \<and>
         length (filter (\<lambda>x. x = Setup_step) (steps (w_name w) (new_events s s'))) =
           length ts + 1 \<and>
         length (filter (\<lambda>x. x = Teardown_step) (steps (w_name w) (new_events s s'))) =
           length ts + 1"
proof -
  let ?nm = "w_name w"
  from Worker_run_shape[OF assms(1)] obtain tr rest where
    sh: "trace s' = trace s @ tr"
      "steps ?nm tr = rounds (map snd (gets_of ?nm tr)) @ rest"
      "gets_of ?nm tr \<noteq> [] \<and> snd (last (gets_of ?nm tr)) = FINISH \<longrightarrow> rest = []"
      "FINISH \<notin> set (butlast (map snd (gets_of ?nm tr)))"
    by blast
  have ne: "new_events s s' = tr"
    by (rule new_events_append[OF sh(1)])
  have items: "map snd (gets_of ?nm tr) = ts @ [FINISH]"
    using assms(2) by (simp add: ne)
  then have "gets_of ?nm tr \<noteq> []" by auto
  moreover from items this have "snd (last (gets_of ?nm tr)) = FINISH"
    by (metis last_map last_snoc)
  ultimately have "rest = []" using sh(3) by blast
  then have st: "steps ?nm tr = rounds (ts @ [FINISH])"
    by (simp add: sh(2) items)
  have "FINISH \<notin> set ts"
    using sh(4) by (simp add: items)
  then show ?thesis
    by (auto simp: ne st count_rounds)
qed

theorem hooks_around_every_dequeue_witness:
  "map snd (gets_of ''0'' (new_events
      (queued [(5, ''t1''), (0, ''t2''), (INFINITE, FINISH)] scenario_store)
      (snd (Worker_run quiet_shell (scenario_worker (scenario_plugin []) no_scripts)
         (queued [(5, ''t1''), (0, ''t2''), (INFINITE, FINISH)] scenario_store))))) =
     [''t2'', ''t1''] @ [FINISH] \<and>
   steps ''0'' (new_events
      (queued [(5, ''t1''), (0, ''t2''), (INFINITE, FINISH)] scenario_store)
      (snd (Worker_run quiet_shell (scenario_worker (scenario_plugin []) no_scripts)
         (queued [(5, ''t1''), (0, ''t2''), (INFINITE, FINISH)] scenario_store)))) =
     [Setup_step, Get_step ''t2'', Teardown_step,
      Setup_step, Get_step ''t1'', Teardown_step,
      Setup_step, Get_step FINISH, Teardown_step] \<and>
   length (filter (\<lambda>x. x = Setup_step) (steps ''0'' (new_events
      (queued [(5, ''t1''), (0, ''t2''), (INFINITE, FINISH)] scenario_store)
      (snd (Worker_run quiet_shell (scenario_worker (scenario_plugin []) no_scripts)
         (queued [(5, ''t1''), (0, ''t2''), (INFINITE, FINISH)] scenario_store)))))) = 3 \<and>
   length (filter (\<lambda>x. x = Teardown_step) (steps ''0'' (new_events
      (queued [(5, ''t1''), (0, ''t2''), (INFINITE, FINISH)] scenario_store)
      (snd (Worker_run quiet_shell (scenario_worker (scenario_plugin []) no_scripts)
         (queued [(5, ''t1''), (0, ''t2''), (INFINITE, FINISH)] scenario_store)))))) = 3"
proof -
  let ?s = "queued [(5, ''t1''), (0, ''t2''), (INFINITE, FINISH)] scenario_store"
  let ?w = "scenario_worker (scenario_plugin []) no_scripts"
  have nm: "w_name ?w = ''0''"
    by (simp add: scenario_worker_def Worker_init_def)
  have run: "Worker_run quiet_shell ?w ?s =
             (fst (Worker_run quiet_shell ?w ?s), snd (Worker_run quiet_shell ?w ?s))"
    by simp
  have g: "map snd (gets_of ''0'' (new_events ?s (snd (Worker_run quiet_shell ?w ?s)))) =
           [''t2'', ''t1''] @ [FINISH]"
    by code_simp
  from hooks_around_every_dequeue[OF run, unfolded nm, OF g] g show ?thesis
    by (simp add: rounds_def)
qed

section \<open>The order of the dequeues\<close>






section \<open>A test that raises\<close>

lemma process_store_changed:
  assumes "timing_rows (file_store (process w tid s)) \<noteq> timing_rows (file_store s)"
  shows "\<exists>d. run_test (w_plugin w) (trace s) (w_name w) tid (w_workspace_path w)
               (w_output_path w) = Returned d"
proof (cases "run_test (w_plugin w) (trace s) (w_name w) tid (w_workspace_path w)
               (w_output_path w)")
  case (Returned d)
  then show ?thesis by blast
next
  case (Raised m)
  then have "file_store (process w tid s) = file_store s"
    by (simp add: process_def)
  with assms show ?thesis by simp
qed

text \<open>
  Claim C7.  When the plugin raises an exception for a test, \<open>process\<close> catches it and
  logs it, returns normally, and leaves the store and the queue as they were: no timing
  is recorded.  The iteration of the loop goes on as after any other test: once the
  teardown-test hook has succeeded, the worker continues with the next iteration, that
  is with the next entry of the queue.  And whenever \<open>process\<close> changes the timing rows
  of the store, the plugin has returned from the test.
\<close>

theorem failing_test_is_contained:
  assumes "tid \<noteq> FINISH"
    and "run_test (w_plugin w) (trace s) (w_name w) tid (w_workspace_path w)
           (w_output_path w) = Raised m"
  shows "process w tid s =
           s\<lparr>trace := trace s @
              [Plugin_run (w_name w) tid (Raised m), Log_exception (w_name w) m]\<rparr> \<and>
         file_store (process w tid s) = file_store s \<and>
         shared_queue (process w tid s) = shared_queue s \<and>
         (\<forall>sh s0 s1 pri q s4.
            run_script_setup_test sh w s0 = (None, s1) \<and>
            get (shared_queue s1) = Some ((pri, tid), q) \<and>
            s = s1\<lparr>shared_queue := q, trace := trace s1 @ [Queue_get (w_name w) pri tid]\<rparr> \<and>
            run_script_teardown_test sh w
              ((process w tid s)\<lparr>trace := trace (process w tid s) @ [Task_done (w_name w)]\<rparr>) =
              (None, s4) \<longrightarrow>
            worker_loop sh w s0 = worker_loop sh w s4 \<and>
            file_store s4 = file_store s0 \<and> shared_queue s4 = q) \<and>
         (\<forall>tid' s'.
            timing_rows (file_store (process w tid' s')) \<noteq> timing_rows (file_store s') \<longrightarrow>
            (\<exists>d. run_test (w_plugin w) (trace s') (w_name w) tid' (w_workspace_path w)
                    (w_output_path w) = Returned d))"
proof -
  have p: "process w tid s =
           s\<lparr>trace := trace s @
              [Plugin_run (w_name w) tid (Raised m), Log_exception (w_name w) m]\<rparr>"
    using assms by (simp add: process_def)
  have loop: "worker_loop sh w s0 = worker_loop sh w s4 \<and>
            file_store s4 = file_store s0 \<and> shared_queue s4 = q"
    if su: "run_script_setup_test sh w s0 = (None, s1)"
      and g: "get (shared_queue s1) = Some ((pri, tid), q)"
      and s: "s = s1\<lparr>shared_queue := q, trace := trace s1 @ [Queue_get (w_name w) pri tid]\<rparr>"
      and td: "run_script_teardown_test sh w
              ((process w tid s)\<lparr>trace := trace (process w tid s) @ [Task_done (w_name w)]\<rparr>) =
              (None, s4)"
    for sh s0 s1 pri q s4
  proof -
    have ne: "tid \<noteq> []" using assms(1) by (simp add: FINISH_def)
    have 1: "worker_loop sh w s0 = worker_loop sh w s4"
      by (subst worker_loop.simps) (simp add: su g Let_def s[symmetric] td ne)
    from su obtain rc1 where
      s1: "s1 = s0\<lparr>trace := trace s0 @ [Script Setup_test (w_name w) rc1]\<rparr>"
      unfolding run_script_setup_test_def by (blast dest: worker_hook_state)
    from td obtain rc4 where
      s4: "s4 = ((process w tid s)\<lparr>trace := trace (process w tid s) @ [Task_done (w_name w)]\<rparr>)
                  \<lparr>trace := trace ((process w tid s)\<lparr>trace := trace (process w tid s) @
                       [Task_done (w_name w)]\<rparr>) @ [Script Teardown_test (w_name w) rc4]\<rparr>"
      unfolding run_script_teardown_test_def by (blast dest: worker_hook_state)
    have 2: "file_store s4 = file_store s0"
      by (simp add: s4 p) (simp add: s s1)
    have 3: "shared_queue s4 = q"
      by (simp add: s4 p) (simp add: s)
    from 1 2 3 show ?thesis by blast
  qed
  have a: "file_store (process w tid s) = file_store s"
    and b: "shared_queue (process w tid s) = shared_queue s"
    unfolding p by simp_all
  from p a b loop process_store_changed show ?thesis
    by blast
qed

theorem failing_test_is_contained_witness:
  "trace (process (scenario_worker (failing_plugin [''bad'', ''ok''] [''bad'']) no_scripts)
            ''bad'' (queued [(0, ''ok'')] scenario_store)) =
     [Plugin_run ''0'' ''bad'' (Raised ''failed''), Log_exception ''0'' ''failed''] \<and>
   file_store (process (scenario_worker (failing_plugin [''bad'', ''ok''] [''bad'']) no_scripts)
            ''bad'' (queued [(0, ''ok'')] scenario_store)) = scenario_store \<and>
   fst (Paratest_run quiet_shell
          ((scenario_paratest 1 no_scripts [])
             \<lparr>pluginmgr := (\<lambda>nm. Some (failing_plugin [''bad'', ''ok''] [''bad'']))\<rparr>)
          ''plug'' (started scenario_store)) = Completed \<and>
   plugin_runs (trace (snd (snd (Paratest_run quiet_shell
          ((scenario_paratest 1 no_scripts [])
             \<lparr>pluginmgr := (\<lambda>nm. Some (failing_plugin [''bad'', ''ok''] [''bad'']))\<rparr>)
          ''plug'' (started scenario_store))))) = [''bad'', ''ok''] \<and>
   map t_test (timing_rows (file_store (snd (snd (Paratest_run quiet_shell
          ((scenario_paratest 1 no_scripts [])
             \<lparr>pluginmgr := (\<lambda>nm. Some (failing_plugin [''bad'', ''ok''] [''bad'']))\<rparr>)
          ''plug'' (started scenario_store)))))) = [''t1'', ''ok'']"
proof -
  let ?w = "scenario_worker (failing_plugin [''bad'', ''ok''] [''bad'']) no_scripts"
  let ?s = "queued [(0, ''ok'')] scenario_store"
  have nm: "w_name ?w = ''0''"
    by (simp add: scenario_worker_def Worker_init_def)
  have t: "''bad'' \<noteq> FINISH"
    by (simp add: FINISH_def)
  have r: "run_test (w_plugin ?w) (trace ?s) (w_name ?w) ''bad'' (w_workspace_path ?w)
             (w_output_path ?w) = Raised ''failed''"
    by (simp add: scenario_worker_def Worker_init_def failing_plugin_def)
  from failing_test_is_contained[OF t r]
  have p: "process ?w ''bad'' ?s =
             ?s\<lparr>trace := trace ?s @
                [Plugin_run (w_name ?w) ''bad'' (Raised ''failed''),
                 Log_exception (w_name ?w) ''failed'']\<rparr>"
    and f: "file_store (process ?w ''bad'' ?s) = file_store ?s"
    by blast+
  have 1: "trace (process ?w ''bad'' ?s) =
     [Plugin_run ''0'' ''bad'' (Raised ''failed''), Log_exception ''0'' ''failed'']"
    unfolding p nm by (simp add: queued_def)
  have 2: "file_store (process ?w ''bad'' ?s) = scenario_store"
    unfolding f by (simp add: queued_def)
  have 3: "fst (Paratest_run quiet_shell
          ((scenario_paratest 1 no_scripts [])
             \<lparr>pluginmgr := (\<lambda>nm. Some (failing_plugin [''bad'', ''ok''] [''bad'']))\<rparr>)
          ''plug'' (started scenario_store)) = Completed"
    "plugin_runs (trace (snd (snd (Paratest_run quiet_shell
          ((scenario_paratest 1 no_scripts [])
             \<lparr>pluginmgr := (\<lambda>nm. Some (failing_plugin [''bad'', ''ok''] [''bad'']))\<rparr>)
          ''plug'' (started scenario_store))))) = [''bad'', ''ok'']"
    "map t_test (timing_rows (file_store (snd (snd (Paratest_run quiet_shell
          ((scenario_paratest 1 no_scripts [])
             \<lparr>pluginmgr := (\<lambda>nm. Some (failing_plugin [''bad'', ''ok''] [''bad'']))\<rparr>)
          ''plug'' (started scenario_store)))))) = [''t1'', ''ok'']"
    by code_simp+
  from 1 2 3 show ?thesis by blast
qed

end
